theory Spec2Isabelle
  imports Main "HOL-Library.Word"
begin

unbundle bit_operations_syntax

section \<open>sshtun: a shallow embedding of the tunnel lifecycle engine\<close>

text \<open>
  The development follows \<^verbatim>\<open>sshtun.go\<close> and \<^verbatim>\<open>tun/tun.go\<close>. Every call that leaves the
  process (a system call, the SSH library, the clock, the random source) is an explicit
  argument of the function that makes it: the argument is the answer the outside world gives
  to that call. The tunnels and tunnel sets of the model are those made by the constructors
  of the package (\<^verbatim>\<open>NewSecureShellTunneler\<close>, \<^verbatim>\<open>LoadConfig\<close>, \<^verbatim>\<open>DefaultConfig\<close>), which
  install a logger through \<^verbatim>\<open>SetLogger\<close>; logging then has no effect on any result and is
  left out. Go's \<^verbatim>\<open>int\<close> is modelled by \<^typ>\<open>int\<close>; no arithmetic of the modelled code can
  overflow (see the remark at \<^verbatim>\<open>StartKeepalive\<close>).
\<close>

subsection \<open>Errors and error chains\<close>

text \<open>
  The sentinel errors of the two packages are constructors of their own, so that they are
  compared by identity as the pointers made by \<^verbatim>\<open>errors.New\<close> are. \<open>Foreign\<close> is an error
  value made by the operating system or a library (an errno, a \<^verbatim>\<open>*net.ParseError\<close>, an SSH
  or I/O error), named by its text: such a value is made by code that does not know the
  sentinels of this repository. \<open>ErrorString\<close> is the result of \<^verbatim>\<open>errors.New\<close> or of
  \<^verbatim>\<open>fmt.Errorf\<close> without a \<^verbatim>\<open>%w\<close> verb, with its formatted message. \<open>Errorf\<close> is the
  result of \<^verbatim>\<open>fmt.Errorf\<close> with one or more \<^verbatim>\<open>%w\<close> verbs: the format string and the
  wrapped operands in order (what \<^verbatim>\<open>Unwrap\<close> returns).
\<close>

datatype error =
    ErrNilPointer
  | ErrEmptySshAuthSock
  | ErrNoTunReadWriter
  | ErrUnrecoverable
  | ErrMissingContext
  | ErrInvalidAddress
  | Foreign string
  | ErrorString string
  | Errorf string "error list"

text \<open>\<^verbatim>\<open>errors.Is\<close>: the target is found at the error itself or, depth first, in what it wraps.\<close>

fun errors_Is :: "error \<Rightarrow> error \<Rightarrow> bool" where
  "errors_Is (Errorf f es) target =
     (Errorf f es = target \<or> (\<exists>e \<in> set es. errors_Is e target))"
| "errors_Is err target = (err = target)"

text \<open>\<^verbatim>\<open>func unrecoverable(err error) error { return fmt.Errorf("%w: %w", ErrUnrecoverable, err) }\<close>\<close>

definition unrecoverable :: "error \<Rightarrow> error" where
  "unrecoverable err = Errorf ''%w: %w'' [ErrUnrecoverable, err]"

subsection \<open>Decimal formatting (\<^verbatim>\<open>strconv.Itoa\<close>, the verb \<^verbatim>\<open>%d\<close>)\<close>

text \<open>The digit \<open>d\<close>, for \<open>d\<close> below ten, and the decimal digits of a natural number.\<close>

definition digit_char :: "nat \<Rightarrow> char" where
  "digit_char d = ''0123456789'' ! d"

fun utoa :: "nat \<Rightarrow> string" where
  "utoa n = (if n < 10 then [digit_char n] else utoa (n div 10) @ [digit_char (n mod 10)])"

declare utoa.simps [simp del]

definition Itoa :: "int \<Rightarrow> string" where
  "Itoa i = (if i < 0 then CHR ''-'' # utoa (nat (- i)) else utoa (nat i))"

subsection \<open>The tunnel configuration and the tunnel set\<close>

text \<open>\<^verbatim>\<open>type Duration time.Duration\<close>: a number of nanoseconds.\<close>

type_synonym Duration = int

definition Second :: Duration where
  "Second = 1000000000"

record SSHTUN =
  Name :: string
  Comment :: string
  Protocol :: string
  LocalNetwork :: string
  LocalTunDevice :: string
  LocalMTU :: int
  Remote :: string
  RemoteNetwork :: string
  RemoteTunDevice :: string
  RemoteMTU :: int
  RemoteUser :: string
  UseSSHAgent :: bool
  PrivateKeyFiles :: "string list"
  RemoteUploadDirectory :: string
  RemoteSCP :: string
  Enable :: bool
  KeepaliveInterval :: Duration
  KeepaliveMaxErrorCount :: int
  remoteTunReadWriter :: string
  done_field :: bool

record Tunnels =
  Tunnels :: "SSHTUN list"

subsection \<open>The supervisor: \<^verbatim>\<open>Tunnels.OpenAll\<close>\<close>

text \<open>
  The goroutine that \<^verbatim>\<open>OpenAll\<close> starts for an enabled tunnel. Its two blocking points are
  answered from outside: \<open>opens i\<close> is what the \<open>i\<close>-th call of \<^verbatim>\<open>tunnel.Open(ctx)\<close> returns
  (\<open>None\<close> for nil), and \<open>sel i\<close> says which case of the \<open>i\<close>-th \<^verbatim>\<open>select\<close> is taken. The
  worker returns what it did, in order; the loop has no exit of its own, so the recursion is
  bounded by fuel and \<open>None\<close> means that the worker is still looping when the fuel is spent.
\<close>

datatype select_case = Ctx_Done | Timer_C

datatype worker_event =
    Open_returned "error option"
  | New_Timer Duration
  | Wg_Done

text \<open>The test \<^verbatim>\<open>err != nil\<close> and \<^verbatim>\<open>errors.Is(err, ErrUnrecoverable)\<close> of the worker.\<close>

definition failed_unrecoverable :: "error option \<Rightarrow> bool" where
  "failed_unrecoverable err = (case err of None \<Rightarrow> False | Some e \<Rightarrow> errors_Is e ErrUnrecoverable)"

fun worker :: "nat \<Rightarrow> (nat \<Rightarrow> error option) \<Rightarrow> (nat \<Rightarrow> select_case) \<Rightarrow> nat \<Rightarrow> worker_event list option" where
  "worker 0 opens sel i = None"
| "worker (Suc fuel) opens sel i =
     (let err = opens i in
      if failed_unrecoverable err
      then Some [Open_returned err, Wg_Done]
      else (case sel i of
              Ctx_Done \<Rightarrow> Some [Open_returned err, New_Timer (5 * Second), Wg_Done]
            | Timer_C \<Rightarrow>
                (case worker fuel opens sel (Suc i) of
                   None \<Rightarrow> None
                 | Some rest \<Rightarrow> Some (Open_returned err # New_Timer (5 * Second) # rest))))"

text \<open>
  The \<^verbatim>\<open>for i := range t.Tunnels\<close> loop of \<^verbatim>\<open>OpenAll\<close>: it counts the enabled tunnels and
  starts one worker for each of them, skipping the others.
\<close>

fun OpenAll_loop :: "SSHTUN list \<Rightarrow> nat \<Rightarrow> SSHTUN list \<Rightarrow> nat \<times> SSHTUN list" where
  "OpenAll_loop [] numberOfTunnels started = (numberOfTunnels, started)"
| "OpenAll_loop (tunnel # rest) numberOfTunnels started =
     (if \<not> Enable tunnel then OpenAll_loop rest numberOfTunnels started
      else OpenAll_loop rest (numberOfTunnels + 1) (started @ [tunnel]))"

text \<open>
  \<^verbatim>\<open>OpenAll\<close> itself. \<open>opens k\<close> and \<open>sel k\<close> answer the worker of the \<open>k\<close>-th enabled
  tunnel. With no enabled tunnel the error is returned at once; otherwise \<^verbatim>\<open>wg.Wait()\<close>
  returns when every worker has called \<^verbatim>\<open>wg.Done()\<close>, and \<open>None\<close> on the outside means that
  some worker is still looping when the fuel is spent.
\<close>

definition OpenAll ::
  "nat \<Rightarrow> (nat \<Rightarrow> nat \<Rightarrow> error option) \<Rightarrow> (nat \<Rightarrow> nat \<Rightarrow> select_case) \<Rightarrow> Tunnels \<Rightarrow> error option option" where
  "OpenAll fuel opens sel t =
     (let (numberOfTunnels, started) = OpenAll_loop (Tunnels t) 0 [] in
      if numberOfTunnels = 0
      then Some (Some (ErrorString (''0 out of '' @ Itoa (int (length (Tunnels t)))
                                     @ '' tunnel(s) marked enabled in configuration'')))
      else if \<forall>k < length started. worker fuel (opens k) (sel k) 0 \<noteq> None
      then Some None
      else None)"

subsection \<open>The keepalive loop: \<^verbatim>\<open>StartKeepalive\<close>\<close>

text \<open>
  What the \<^verbatim>\<open>select\<close> of the loop receives: a tick of the ticker, together with the
  outcome of the \<^verbatim>\<open>serverAliveCheck\<close> made on that tick (\<open>True\<close> when the keepalive
  request returned no error), or the closing of the \<^verbatim>\<open>done\<close> channel.
\<close>

datatype keepalive_event = Tick bool | Done_closed

text \<open>
  How the loop ends: the client was closed by the loop, the \<^verbatim>\<open>done\<close> channel was closed,
  or the events are used up and the loop is still blocked in its \<^verbatim>\<open>select\<close>.
\<close>

datatype keepalive_end = Client_closed | Returned_on_done | Still_running

text \<open>
  The loop with its counter \<open>n\<close>. The result lists the value of \<open>n\<close> after each tick
  that was handled, in order, and says how the loop ended. The counter never exceeds the
  larger of \<open>countMax\<close> and \<open>1\<close> (lemma \<open>keepalive_counters_bounded\<close>), so the 64-bit
  \<^verbatim>\<open>n++\<close> of the code cannot wrap.
\<close>

fun keepalive_loop :: "int \<Rightarrow> int \<Rightarrow> keepalive_event list \<Rightarrow> int list \<times> keepalive_end" where
  "keepalive_loop countMax n [] = ([], Still_running)"
| "keepalive_loop countMax n (Done_closed # events) = ([], Returned_on_done)"
| "keepalive_loop countMax n (Tick ok # events) =
     (if \<not> ok then
        (let n' = n + 1 in
         if n' \<ge> countMax then ([n'], Client_closed)
         else (case keepalive_loop countMax n' events of (ns, e) \<Rightarrow> (n' # ns, e)))
      else (case keepalive_loop countMax 0 events of (ns, e) \<Rightarrow> (0 # ns, e)))"

definition StartKeepalive :: "int \<Rightarrow> keepalive_event list \<Rightarrow> int list \<times> keepalive_end" where
  "StartKeepalive countMax events = keepalive_loop countMax 0 events"

text \<open>
  For the statement of the counting law: the number of failed ticks at the end of a list of
  tick outcomes, that is the length of the current run of consecutive failures.
\<close>

definition failure_run :: "bool list \<Rightarrow> nat" where
  "failure_run oks = length (takeWhile Not (rev oks))"

subsection \<open>The privilege gate: \<^verbatim>\<open>Become\<close> and \<^verbatim>\<open>Unbecome\<close>\<close>

text \<open>
  The state outside the tunnel record that the engine changes: the effective UID of the
  process, and the command lines handed to the SSH sessions of the tunnel (oldest first).
\<close>

record world =
  euid :: int
  ran :: "string list"

definition ROOT :: int where
  "ROOT = 0"

definition Geteuid :: "world \<Rightarrow> int" where
  "Geteuid w = euid w"

text \<open>
  The kernel's \<^verbatim>\<open>uid_t\<close> has 32 bits. \<^verbatim>\<open>syscall.Seteuid\<close> takes a Go \<^verbatim>\<open>int\<close> and hands it
  to \<^verbatim>\<open>setresuid(-1, euid, -1)\<close>, where the kernel reads the 32 low bits of it, and where
  the value \<^verbatim>\<open>(uid_t)-1\<close> means: leave this UID as it is. A UID that a process can have is
  therefore a \<^verbatim>\<open>uid_t\<close> other than \<^verbatim>\<open>(uid_t)-1\<close>.
\<close>

definition uid_t :: "int \<Rightarrow> int" where
  "uid_t uid = uid mod 2 ^ 32"

definition valid_uid :: "int \<Rightarrow> bool" where
  "valid_uid uid = (0 \<le> uid \<and> uid < 2 ^ 32 - 1)"

text \<open>
  \<^verbatim>\<open>syscall.Seteuid(uid)\<close>. The kernel's answer is the argument \<open>answer\<close>: \<open>Some errno\<close>
  when the call is refused, and then the effective UID is unchanged; \<open>None\<close> when it is
  granted, and then the effective UID is the \<^verbatim>\<open>uid_t\<close> read from \<open>uid\<close>, or unchanged when
  that is \<^verbatim>\<open>(uid_t)-1\<close>.
\<close>

definition Seteuid :: "string option \<Rightarrow> int \<Rightarrow> world \<Rightarrow> error option \<times> world" where
  "Seteuid answer uid w =
     (case answer of
        Some errno \<Rightarrow> (Some (Foreign errno), w)
      | None \<Rightarrow> (None, if uid_t uid = 2 ^ 32 - 1 then w else w\<lparr>euid := uid_t uid\<rparr>))"

text \<open>
  The other tunnels of the process run their own calls of \<^verbatim>\<open>Open\<close> in goroutines of their
  own, and the effective UID belongs to the whole process. \<open>others change w\<close> is the world
  after the other tunnels have run for a while: \<open>change\<close> is the effective UID that they
  have set by then, \<open>None\<close> when they have not changed it.
\<close>

definition others :: "int option \<Rightarrow> world \<Rightarrow> world" where
  "others change w = (case change of None \<Rightarrow> w | Some uid \<Rightarrow> w\<lparr>euid := uid\<rparr>)"

text \<open>The guard; its \<^verbatim>\<open>logger\<close> and its back-reference \<^verbatim>\<open>st\<close> to the tunnel are left out.\<close>

record Became =
  originalUID :: int
  becameUID :: int

definition Become_errmsg :: string where
  "Become_errmsg = ''unable to change to uid 0 (perhaps missing setuid mode on executable? chown 0:0 sshtun; chmod 4755 sshtun)''"

text \<open>\<^verbatim>\<open>func (s *SSHTUN) Become(uid int) (*Became, error)\<close>\<close>

definition SSHTUN_Become :: "string option \<Rightarrow> int \<Rightarrow> world \<Rightarrow> (error + Became) \<times> world" where
  "SSHTUN_Become answer uid w =
     (let original = Geteuid w in
      if original \<noteq> uid then
        (case Seteuid answer uid w of
           (Some err, w') \<Rightarrow> (Inl (Errorf (Become_errmsg @ '': %w'') [err]), w')
         | (None, w') \<Rightarrow> (Inr \<lparr>originalUID = original, becameUID = Geteuid w'\<rparr>, w'))
      else (Inr \<lparr>originalUID = original, becameUID = Geteuid w\<rparr>, w))"

text \<open>\<^verbatim>\<open>func (b *Became) Unbecome() error\<close>\<close>

definition Unbecome :: "string option \<Rightarrow> Became \<Rightarrow> world \<Rightarrow> (error + Became) \<times> world" where
  "Unbecome answer b w =
     (if Geteuid w \<noteq> originalUID b then
        (case Seteuid answer (originalUID b) w of
           (Some err, w') \<Rightarrow> (Inl err, w')
         | (None, w') \<Rightarrow> (Inr (b\<lparr>becameUID := Geteuid w'\<rparr>), w'))
      else (Inr (b\<lparr>becameUID := Geteuid w\<rparr>), w))"

text \<open>\<^verbatim>\<open>func (b *Became) Become(uid int) error\<close>: the guard keeps its own \<^verbatim>\<open>originalUID\<close>.\<close>

definition Became_Become :: "string option \<Rightarrow> Became \<Rightarrow> int \<Rightarrow> world \<Rightarrow> (error + Became) \<times> world" where
  "Became_Become answer b uid w =
     (case SSHTUN_Become answer uid w of
        (Inl err, w') \<Rightarrow> (Inl err, w')
      | (Inr c, w') \<Rightarrow> (Inr (b\<lparr>becameUID := becameUID c\<rparr>), w'))"

definition OriginalUID :: "Became \<Rightarrow> int" where
  "OriginalUID b = originalUID b"

subsection \<open>Library functions: \<^verbatim>\<open>filepath.Join\<close> and \<^verbatim>\<open>shellescape.Quote\<close>\<close>

text \<open>
  The code calls these two functions of libraries outside the repository. They are modelled
  after the libraries: \<^verbatim>\<open>filepath.Clean\<close> with its read position, its output buffer and its
  \<^verbatim>\<open>dotdot\<close> mark, \<^verbatim>\<open>filepath.Join\<close> for two elements on a system whose separator is the
  slash, and \<^verbatim>\<open>shellescape.Quote\<close> with its pattern \<^verbatim>\<open>[^\w@%+=:,./-]\<close>.
\<close>

definition is_sep :: "char \<Rightarrow> bool" where
  "is_sep c = (c = CHR ''/'')"

fun backtrack :: "string \<Rightarrow> nat \<Rightarrow> nat \<Rightarrow> nat" where
  "backtrack out dotdot w =
     (if w > dotdot \<and> \<not> is_sep (out ! w) then backtrack out dotdot (w - 1) else w)"

declare backtrack.simps [simp del]

function Clean_loop :: "bool \<Rightarrow> string \<Rightarrow> nat \<Rightarrow> string \<Rightarrow> string" where
  "Clean_loop rooted out dotdot [] = out"
| "Clean_loop rooted out dotdot (c # cs) =
     (if is_sep c then Clean_loop rooted out dotdot cs
      else if c = CHR ''.'' \<and> (cs = [] \<or> is_sep (hd cs)) then Clean_loop rooted out dotdot cs
      else if c = CHR ''.'' \<and> hd cs = CHR ''.'' \<and> (tl cs = [] \<or> is_sep (hd (tl cs))) then
        (if length out > dotdot
         then Clean_loop rooted (take (backtrack out dotdot (length out - 1)) out) dotdot (tl cs)
         else if \<not> rooted
         then (let out' = (if length out > 0 then out @ ''/'' else out) @ ''..''
               in Clean_loop rooted out' (length out') (tl cs))
         else Clean_loop rooted out dotdot (tl cs))
      else (let out' = (if rooted \<and> length out \<noteq> 1 \<or> \<not> rooted \<and> length out \<noteq> 0
                        then out @ ''/'' else out)
            in Clean_loop rooted (out' @ takeWhile (\<lambda>x. \<not> is_sep x) (c # cs)) dotdot
                 (dropWhile (\<lambda>x. \<not> is_sep x) (c # cs))))"
  by pat_completeness auto
termination
proof (relation "measure (\<lambda>(rooted, out, dotdot, path). length path)")
  show "wf (measure (\<lambda>(rooted, out, dotdot, path). length path))" by simp
qed (auto simp: length_dropWhile_le le_imp_less_Suc)

definition Clean :: "string \<Rightarrow> string" where
  "Clean path =
     (if path = [] then ''.''
      else let rooted = is_sep (hd path);
               out = Clean_loop rooted (if rooted then ''/'' else []) (if rooted then 1 else 0)
                       (if rooted then tl path else path)
           in if length out = 0 then ''.'' else out)"

text \<open>\<^verbatim>\<open>filepath.Join(a, b)\<close>: the elements from the first non-empty one on, joined and cleaned.\<close>

definition Join :: "string \<Rightarrow> string \<Rightarrow> string" where
  "Join a b =
     (if a \<noteq> [] then Clean (a @ ''/'' @ b)
      else if b \<noteq> [] then Clean b
      else [])"

text \<open>The characters that the pattern of \<^verbatim>\<open>shellescape\<close> does not match.\<close>

definition shell_safe :: "char \<Rightarrow> bool" where
  "shell_safe c =
     (c \<in> set ''abcdefghijklmnopqrstuvwxyzABCDEFGHIJKLMNOPQRSTUVWXYZ0123456789_@%+=:,./-'')"

definition squote :: char where
  "squote = CHR 0x27"

definition dquote :: char where
  "dquote = CHR 0x22"

text \<open>
  \<^verbatim>\<open>shellescape.Quote\<close>: the empty string becomes two single quotes; a string with a
  character that the pattern matches is put between single quotes, each single quote inside
  it replaced by a closing quote, a double-quoted single quote and an opening quote; every
  other string is returned as it is.
\<close>

definition Quote :: "string \<Rightarrow> string" where
  "Quote s =
     (if length s = 0 then [squote, squote]
      else if \<exists>c \<in> set s. \<not> shell_safe c
      then [squote]
           @ concat (map (\<lambda>c. if c = squote then [squote, dquote, squote, dquote, squote] else [c]) s)
           @ [squote]
      else s)"

subsection \<open>Parsing a CIDR: \<^verbatim>\<open>net.ParseCIDR\<close>\<close>

text \<open>
  \<^verbatim>\<open>ConfigureInterface\<close> hands its argument to \<^verbatim>\<open>net.ParseCIDR\<close> of the Go library. The
  model follows the library: the string is cut at the first slash, the address goes to
  \<^verbatim>\<open>netip.ParseAddr\<close>, which chooses the IPv4 or the IPv6 parser by the first dot or colon,
  and the prefix length goes to \<^verbatim>\<open>dtoi\<close>. The IPv4 parser is modelled in full. The IPv6
  parser is the parameter \<open>parseIPv6\<close>, which returns the sixteen bytes and the zone of an
  address it accepts. An address is a list of its bytes.
\<close>

definition is_digit :: "char \<Rightarrow> bool" where
  "is_digit c = ((of_char CHR ''0'' :: nat) \<le> of_char c \<and> (of_char c :: nat) \<le> of_char CHR ''9'')"

definition digit_val :: "char \<Rightarrow> nat" where
  "digit_val c = of_char c - of_char CHR ''0''"

text \<open>
  The loop of \<^verbatim>\<open>parseIPv4\<close>: \<open>flds\<close> (the array \<^verbatim>\<open>fields\<close> up to \<^verbatim>\<open>pos\<close>) are the octets closed by a dot so far, \<open>val\<close> and
  \<open>digLen\<close> the value and the number of digits of the current octet, \<open>prev\<close> the previous
  character (\<open>None\<close> at the start of the string).
\<close>

fun parseIPv4_loop :: "nat list \<Rightarrow> nat \<Rightarrow> nat \<Rightarrow> char option \<Rightarrow> string \<Rightarrow> nat list option" where
  "parseIPv4_loop flds val digLen prev [] =
     (if length flds < 3 then None else Some (flds @ [val]))"
| "parseIPv4_loop flds val digLen prev (c # cs) =
     (if is_digit c then
        (if digLen = 1 \<and> val = 0 then None
         else let val' = val * 10 + digit_val c in
              if val' > 255 then None
              else parseIPv4_loop flds val' (digLen + 1) (Some c) cs)
      else if c = CHR ''.'' then
        (if prev = None \<or> cs = [] \<or> prev = Some CHR ''.'' then None
         else if length flds = 3 then None
         else parseIPv4_loop (flds @ [val]) 0 0 (Some c) cs)
      else None)"

definition parseIPv4 :: "string \<Rightarrow> nat list option" where
  "parseIPv4 s = parseIPv4_loop [] 0 0 None s"

datatype Addr = Addr4 "nat list" | Addr6 "nat list" string

fun ParseAddr_scan :: "(string \<Rightarrow> (nat list \<times> string) option) \<Rightarrow> string \<Rightarrow> string \<Rightarrow> Addr option" where
  "ParseAddr_scan parseIPv6 s [] = None"
| "ParseAddr_scan parseIPv6 s (c # cs) =
     (if c = CHR ''.'' then map_option Addr4 (parseIPv4 s)
      else if c = CHR '':'' then map_option (\<lambda>(ip, zone). Addr6 ip zone) (parseIPv6 s)
      else if c = CHR ''%'' then None
      else ParseAddr_scan parseIPv6 s cs)"

definition ParseAddr :: "(string \<Rightarrow> (nat list \<times> string) option) \<Rightarrow> string \<Rightarrow> Addr option" where
  "ParseAddr parseIPv6 s = ParseAddr_scan parseIPv6 s s"

definition big :: nat where
  "big = 0xFFFFFF"

fun dtoi_loop :: "nat \<Rightarrow> nat \<Rightarrow> string \<Rightarrow> nat \<times> nat \<times> bool" where
  "dtoi_loop n i [] = (if i = 0 then (0, 0, False) else (n, i, True))"
| "dtoi_loop n i (c # cs) =
     (if is_digit c then
        (let n' = n * 10 + digit_val c in
         if n' \<ge> big then (big, i, False) else dtoi_loop n' (i + 1) cs)
      else (if i = 0 then (0, 0, False) else (n, i, True)))"

definition dtoi :: "string \<Rightarrow> nat \<times> nat \<times> bool" where
  "dtoi s = dtoi_loop 0 0 s"

definition BitLen :: "Addr \<Rightarrow> nat" where
  "BitLen a = (case a of Addr4 _ \<Rightarrow> 32 | Addr6 _ _ \<Rightarrow> 128)"

definition Zone :: "Addr \<Rightarrow> string" where
  "Zone a = (case a of Addr4 _ \<Rightarrow> [] | Addr6 _ z \<Rightarrow> z)"

definition As16 :: "Addr \<Rightarrow> nat list" where
  "As16 a = (case a of Addr4 b \<Rightarrow> [0, 0, 0, 0, 0, 0, 0, 0, 0, 0, 255, 255] @ b | Addr6 b _ \<Rightarrow> b)"

definition mask_byte :: "nat \<Rightarrow> nat" where
  "mask_byte n = (if n \<ge> 8 then 255 else 255 - (2 ^ (8 - n) - 1))"

fun CIDRMask_loop :: "nat \<Rightarrow> nat \<Rightarrow> nat list" where
  "CIDRMask_loop 0 n = []"
| "CIDRMask_loop (Suc l) n = mask_byte n # CIDRMask_loop l (n - 8)"

definition CIDRMask :: "nat \<Rightarrow> nat \<Rightarrow> nat list" where
  "CIDRMask ones bits = CIDRMask_loop (bits div 8) ones"

text \<open>\<^verbatim>\<open>&net.ParseError{Type: Type, Text: Text}\<close>, named by its message.\<close>

definition ParseError :: "string \<Rightarrow> string \<Rightarrow> error" where
  "ParseError Type Text = Foreign (''invalid '' @ Type @ '': '' @ Text)"

text \<open>\<^verbatim>\<open>net.ParseCIDR\<close>: the address in its 16-byte form and the mask of the network.\<close>

definition ParseCIDR :: "(string \<Rightarrow> (nat list \<times> string) option) \<Rightarrow> string \<Rightarrow> error + (nat list \<times> nat list)" where
  "ParseCIDR parseIPv6 s =
     (if CHR ''/'' \<notin> set s then Inl (ParseError ''CIDR address'' s)
      else let addr = takeWhile (\<lambda>c. c \<noteq> CHR ''/'') s;
               masktext = tl (dropWhile (\<lambda>c. c \<noteq> CHR ''/'') s)
           in case ParseAddr parseIPv6 addr of
                None \<Rightarrow> Inl (ParseError ''CIDR address'' s)
              | Some ipAddr \<Rightarrow>
                  if Zone ipAddr \<noteq> [] then Inl (ParseError ''CIDR address'' s)
                  else (case dtoi masktext of (n, i, ok) \<Rightarrow>
                    if \<not> ok \<or> i \<noteq> length masktext \<or> n > BitLen ipAddr
                    then Inl (ParseError ''CIDR address'' s)
                    else Inr (As16 ipAddr, CIDRMask n (BitLen ipAddr))))"

text \<open>\<^verbatim>\<open>IP.To4\<close>: the four bytes of an IPv4 address, or nil.\<close>

definition To4 :: "nat list \<Rightarrow> nat list option" where
  "To4 ip =
     (if length ip = 4 then Some ip
      else if length ip = 16 \<and> (\<forall>b \<in> set (take 10 ip). b = 0) \<and> ip ! 10 = 255 \<and> ip ! 11 = 255
      then Some (drop 12 ip)
      else None)"

text \<open>
  For the statement of what \<^verbatim>\<open>ConfigureInterface\<close> rejects: the strings that denote an
  IPv4 address with a prefix length. Such a string is a dotted quad, a slash and a prefix
  length: four octets separated by dots, each octet a decimal numeral of at most 255 with no
  leading zero, and the prefix length a non-empty string of decimal digits of value at most
  32. \<open>split_on\<close> cuts a string at every occurrence of a separator; \<open>w\<close> is the piece
  read so far.
\<close>

fun split_loop :: "char \<Rightarrow> string \<Rightarrow> string \<Rightarrow> string list" where
  "split_loop sep w [] = [w]"
| "split_loop sep w (c # cs) =
     (if c = sep then w # split_loop sep [] cs else split_loop sep (w @ [c]) cs)"

definition split_on :: "char \<Rightarrow> string \<Rightarrow> string list" where
  "split_on sep s = split_loop sep [] s"

definition decimal :: "string \<Rightarrow> nat" where
  "decimal t = foldl (\<lambda>n c. n * 10 + digit_val c) 0 t"

definition octet_text :: "string \<Rightarrow> bool" where
  "octet_text t =
     (t \<noteq> [] \<and> list_all is_digit t \<and> (t = ''0'' \<or> hd t \<noteq> CHR ''0'') \<and> decimal t \<le> 255)"

definition prefix_text :: "nat \<Rightarrow> string \<Rightarrow> bool" where
  "prefix_text bits t = (t \<noteq> [] \<and> list_all is_digit t \<and> decimal t \<le> bits)"

definition dotted_quad :: "string \<Rightarrow> bool" where
  "dotted_quad t =
     (case split_on CHR ''.'' t of
        [a, b, c, d] \<Rightarrow> octet_text a \<and> octet_text b \<and> octet_text c \<and> octet_text d
      | _ \<Rightarrow> False)"

definition IPv4_CIDR_text :: "string \<Rightarrow> bool" where
  "IPv4_CIDR_text x =
     (case split_on CHR ''/'' x of
        [addr, n] \<Rightarrow> dotted_quad addr \<and> prefix_text 32 n
      | _ \<Rightarrow> False)"

subsection \<open>The TUN device driver: \<^verbatim>\<open>tun/tun.go\<close>\<close>

text \<open>
  The handle; its \<^verbatim>\<open>File\<close> and its \<^verbatim>\<open>Ifreq\<close> scratch buffer are left out. The answers of
  the kernel to the calls of each operation are a record: an errno is its text, \<open>None\<close> is
  success.
\<close>

record TUN =
  tun_Name :: string
  tun_Fd :: int

definition IFNAMSIZ :: nat where
  "IFNAMSIZ = 16"

record SetMTU_answers =
  mtu_Socket :: "string option"
  mtu_ioctl_SIOCSIFMTU :: "string option"

definition SetMTU :: "SetMTU_answers \<Rightarrow> TUN \<Rightarrow> int \<Rightarrow> error option" where
  "SetMTU a t mtu =
     (case mtu_Socket a of
        Some errno \<Rightarrow> Some (Foreign errno)
      | None \<Rightarrow>
          (case mtu_ioctl_SIOCSIFMTU a of
             Some errno \<Rightarrow> Some (Errorf ''failed to set MTU of TUN device: %w'' [Foreign errno])
           | None \<Rightarrow> None))"

record CreateTUN_answers =
  ct_Open :: "string + int"
  ct_ioctl_TUNSETIFF :: "string + string"
  ct_SetMTU :: SetMTU_answers
  ct_ioctl_TUNSETOWNER :: "string option"
  ct_ioctl_TUNSETGROUP :: "string option"

text \<open>
  \<^verbatim>\<open>CreateTUN\<close>. \<open>ct_Open\<close> answers with the descriptor, \<open>ct_ioctl_TUNSETIFF\<close> with the
  name that the kernel gave to the interface.
\<close>

definition CreateTUN :: "CreateTUN_answers \<Rightarrow> string \<Rightarrow> int \<Rightarrow> int \<Rightarrow> int \<Rightarrow> error + TUN" where
  "CreateTUN a name mtu uid gid =
     (case ct_Open a of
        Inl errno \<Rightarrow> Inl (Foreign errno)
      | Inr fd \<Rightarrow>
          if length name \<ge> IFNAMSIZ then Inl (Foreign ''invalid argument'')
          else (case ct_ioctl_TUNSETIFF a of
             Inl errno \<Rightarrow> Inl (Errorf ''ioctl interface request: %w'' [Foreign errno])
           | Inr ifname \<Rightarrow>
               (let t = \<lparr>tun_Name = ifname, tun_Fd = fd\<rparr> in
                case (if mtu > 0 then SetMTU (ct_SetMTU a) t mtu else None) of
                  Some err \<Rightarrow> Inl err
                | None \<Rightarrow>
                    (case (if uid > 0 then ct_ioctl_TUNSETOWNER a else None) of
                       Some errno \<Rightarrow> Inl (Foreign errno)
                     | None \<Rightarrow>
                         (case (if gid > 0 then ct_ioctl_TUNSETGROUP a else None) of
                            Some errno \<Rightarrow> Inl (Foreign errno)
                          | None \<Rightarrow> Inr t)))))"

record ConfigureInterface_answers =
  ci_parseIPv6 :: "string \<Rightarrow> (nat list \<times> string) option"
  ci_Socket :: "string option"
  ci_ioctl_SIOCSIFADDR :: "string option"
  ci_ioctl_SIOCSIFNETMASK :: "string option"

text \<open>
  \<^verbatim>\<open>ConfigureInterface\<close>. On success the result is what was handed to the kernel: the four
  bytes of the address and the four bytes of the netmask.
\<close>

definition ConfigureInterface :: "ConfigureInterface_answers \<Rightarrow> string \<Rightarrow> error + (nat list \<times> nat list)" where
  "ConfigureInterface a ipv4_address_with_cidr =
     (case ParseCIDR (ci_parseIPv6 a) ipv4_address_with_cidr of
        Inl err \<Rightarrow> Inl err
      | Inr (ip, ipnet_Mask) \<Rightarrow>
          (case To4 ip of
             None \<Rightarrow> Inl ErrInvalidAddress
           | Some ipv4 \<Rightarrow>
               (case ci_Socket a of
                  Some errno \<Rightarrow> Inl (Foreign errno)
                | None \<Rightarrow>
                    (case ci_ioctl_SIOCSIFADDR a of
                       Some errno \<Rightarrow> Inl (Errorf ''ioctl SIOCSIFADDR: %w'' [Foreign errno])
                     | None \<Rightarrow>
                         (case ci_ioctl_SIOCSIFNETMASK a of
                            Some errno \<Rightarrow> Inl (Errorf ''ioctl SIOCSIFNETMASK: %w'' [Foreign errno])
                          | None \<Rightarrow> Inr (ipv4, take 4 ipnet_Mask))))))"

record LinkUp_answers =
  lu_Socket :: "string option"
  lu_ioctl_SIOCGIFFLAGS :: "string + 16 word"
  lu_ioctl_SIOCSIFFLAGS :: "string option"

definition IFF_UP :: "16 word" where
  "IFF_UP = 0x1"

definition IFF_BROADCAST :: "16 word" where
  "IFF_BROADCAST = 0x2"

definition IFF_RUNNING :: "16 word" where
  "IFF_RUNNING = 0x40"

text \<open>\<^verbatim>\<open>LinkUp\<close>. On success the result is the flag word handed to the kernel.\<close>

definition LinkUp :: "LinkUp_answers \<Rightarrow> error + 16 word" where
  "LinkUp a =
     (case lu_Socket a of
        Some errno \<Rightarrow> Inl (Foreign errno)
      | None \<Rightarrow>
          (case lu_ioctl_SIOCGIFFLAGS a of
             Inl errno \<Rightarrow> Inl (Errorf ''ioctl SIOCGIFFLAGS: %w'' [Foreign errno])
           | Inr flags \<Rightarrow>
               (let flags' = flags OR IFF_BROADCAST OR IFF_UP OR IFF_RUNNING in
                case lu_ioctl_SIOCSIFFLAGS a of
                  Some errno \<Rightarrow> Inl (Errorf ''ioctl SIOCSIFFLAGS: %w'' [Foreign errno])
                | None \<Rightarrow> Inr flags')))"

subsection \<open>The SSH client: \<^verbatim>\<open>Dial\<close>\<close>

text \<open>
  What the outside answers to \<^verbatim>\<open>Dial\<close>: the value of the environment variable, the
  connection to the agent and its signers, for each private key file whether it can be read
  and parsed, the TCP connection and the SSH handshake. A signer is named by a string.
\<close>

datatype key_file_answer =
    ReadFile_error string
  | ParsePrivateKey_error string
  | Parsed_signer string

record Dial_answers =
  dl_Getenv_SSH_AUTH_SOCK :: string
  dl_net_Dial_unix :: "string option"
  dl_agent_Signers :: "string + string list"
  dl_key_file :: "string \<Rightarrow> key_file_answer"
  dl_DialContext :: "string option"
  dl_NewClientConn :: "string option"

record Client =
  client_User :: string
  client_signers :: "string list"
  client_addr :: string

text \<open>The loop \<^verbatim>\<open>for _, pk := range s.PrivateKeyFiles\<close>.\<close>

fun Dial_key_files :: "(string \<Rightarrow> key_file_answer) \<Rightarrow> string list \<Rightarrow> string list \<Rightarrow> error + string list" where
  "Dial_key_files answer signers [] = Inr signers"
| "Dial_key_files answer signers (pk # pks) =
     (case answer pk of
        ReadFile_error e \<Rightarrow> Inl (Foreign e)
      | ParsePrivateKey_error e \<Rightarrow> Inl (Foreign e)
      | Parsed_signer signer \<Rightarrow> Dial_key_files answer (signers @ [signer]) pks)"

definition Dial :: "Dial_answers \<Rightarrow> SSHTUN \<Rightarrow> error + Client" where
  "Dial a s =
     (case (if UseSSHAgent s \<and> dl_Getenv_SSH_AUTH_SOCK a \<noteq> [] then
              (case dl_net_Dial_unix a of
                 Some e \<Rightarrow> Inl (Foreign e)
               | None \<Rightarrow>
                   (case dl_agent_Signers a of
                      Inl e \<Rightarrow> Inl (Foreign e)
                    | Inr signers \<Rightarrow> Inr signers))
            else if UseSSHAgent s \<and> dl_Getenv_SSH_AUTH_SOCK a = [] then Inl ErrEmptySshAuthSock
            else Dial_key_files (dl_key_file a) [] (PrivateKeyFiles s)) of
        Inl err \<Rightarrow> Inl err
      | Inr signers \<Rightarrow>
          (case dl_DialContext a of
             Some e \<Rightarrow> Inl (Foreign e)
           | None \<Rightarrow>
               (case dl_NewClientConn a of
                  Some e \<Rightarrow> Inl (Foreign e)
                | None \<Rightarrow>
                    Inr \<lparr>client_User = RemoteUser s, client_signers = signers,
                         client_addr = Remote s\<rparr>)))"

subsection \<open>The helper transfer: \<^verbatim>\<open>UploadHelperToRemote\<close>\<close>

text \<open>
  The answers: \<open>up_now\<close> is \<^verbatim>\<open>time.Now().UTC().Format("20060102T150405")\<close>, \<open>up_Int63\<close>
  is \<^verbatim>\<open>crand.Int63()\<close>; the others are the errors of the SSH session, \<open>None\<close> for success.
  The pipe to the standard input is opened by a goroutine whose error is read from
  \<^verbatim>\<open>errCh\<close> after \<^verbatim>\<open>session.Run\<close> has returned without error. The text read from the
  remote output is only part of an error message and is left out.
\<close>

record Upload_answers =
  up_NewSession :: "string option"
  up_now :: string
  up_Int63 :: int
  up_StdoutPipe :: "string option"
  up_StderrPipe :: "string option"
  up_Run :: "string option"
  up_StdinPipe :: "string option"

definition UploadHelperToRemote :: "Upload_answers \<Rightarrow> SSHTUN \<Rightarrow> string \<Rightarrow> world \<Rightarrow> error option \<times> SSHTUN \<times> world" where
  "UploadHelperToRemote a s remoteDirectory w =
     (case up_NewSession a of
        Some e \<Rightarrow> (Some (Foreign e), s, w)
      | None \<Rightarrow>
          (let remoteDirectory = (if remoteDirectory = [] then ''/tmp'' else remoteDirectory);
               randomFilename = ''tunreadwriter-'' @ up_now a @ ''-'' @ Itoa (up_Int63 a)
           in case up_StdoutPipe a of
                Some e \<Rightarrow> (Some (Foreign e), s, w)
              | None \<Rightarrow>
                  (case up_StderrPipe a of
                     Some e \<Rightarrow> (Some (Foreign e), s, w)
                   | None \<Rightarrow>
                       (let w' = w\<lparr>ran := ran w @ [RemoteSCP s @ '' -t '' @ remoteDirectory]\<rparr> in
                        case up_Run a of
                          Some e \<Rightarrow> (Some (Errorf ''%w: %s'' [Foreign e]), s, w')
                        | None \<Rightarrow>
                            (case up_StdinPipe a of
                               Some e \<Rightarrow> (Some (Errorf ''%w: %s'' [Foreign e]), s, w')
                             | None \<Rightarrow>
                                 (None,
                                  s\<lparr>remoteTunReadWriter := Join remoteDirectory randomFilename\<rparr>,
                                  w'))))))"

subsection \<open>The byte pump: \<^verbatim>\<open>StartTunneling\<close>\<close>

text \<open>The command line for the remote helper, as \<^verbatim>\<open>StartTunneling\<close> formats it.\<close>

definition remoteTunReadWriterCommand :: "SSHTUN \<Rightarrow> string" where
  "remoteTunReadWriterCommand s =
     (let mtustring = Itoa (RemoteMTU s) in
      ''sudo '' @ Quote (remoteTunReadWriter s)
      @ '' -delete -dev '' @ Quote (RemoteTunDevice s)
      @ '' -net '' @ Quote (RemoteNetwork s)
      @ '' -mtu '' @ Quote mtustring)"

text \<open>
  The answers are the errors of the SSH session, \<open>None\<close> for success; \<open>tn_Wait\<close> is the
  result of waiting for the remote command while the two copies run.
\<close>

record Tunneling_answers =
  tn_NewSession :: "string option"
  tn_StdinPipe :: "string option"
  tn_StdoutPipe :: "string option"
  tn_StderrPipe :: "string option"
  tn_Start :: "string option"
  tn_Wait :: "string option"

definition StartTunneling :: "Tunneling_answers \<Rightarrow> SSHTUN \<Rightarrow> world \<Rightarrow> error option \<times> world" where
  "StartTunneling a s w =
     (if remoteTunReadWriter s = [] then (Some ErrNoTunReadWriter, w)
      else
        (case tn_NewSession a of
           Some e \<Rightarrow> (Some (Foreign e), w)
         | None \<Rightarrow>
             (case tn_StdinPipe a of
                Some e \<Rightarrow> (None, w)
              | None \<Rightarrow>
                  (case tn_StdoutPipe a of
                     Some e \<Rightarrow> (Some (Foreign e), w)
                   | None \<Rightarrow>
                       (case tn_StderrPipe a of
                          Some e \<Rightarrow> (Some (Foreign e), w)
                        | None \<Rightarrow>
                            (let w' = w\<lparr>ran := ran w @ [remoteTunReadWriterCommand s]\<rparr> in
                             case tn_Start a of
                               Some e \<Rightarrow> (Some (Foreign e), w')
                             | None \<Rightarrow>
                                 (case tn_Wait a of
                                    Some e \<Rightarrow> (Some (Errorf ''%w: %s'' [Foreign e]), w')
                                  | None \<Rightarrow> (None, w'))))))))"

subsection \<open>The tunnel lifecycle: \<^verbatim>\<open>SSHTUN.Open\<close>\<close>

text \<open>
  The answers of the outside to one call of \<^verbatim>\<open>Open\<close>, in the order of the calls.
  \<open>op_ctx_Value\<close> says whether the context carries the value set by \<^verbatim>\<open>Context\<close>, and
  \<open>op_ctx_Err\<close> whether the context is cancelled when \<^verbatim>\<open>StartTunneling\<close> has returned.
  \<open>op_mutex_Lock\<close> is what the other tunnels have done to the effective UID when
  \<^verbatim>\<open>v.mutex.Lock()\<close> returns, and \<open>op_StartTunneling_others\<close> what they have done to it
  between \<^verbatim>\<open>v.mutex.Unlock()\<close> and the return of \<^verbatim>\<open>StartTunneling\<close>: the tunnels of one
  context share the mutex and change the effective UID only in \<^verbatim>\<open>Open\<close>, while they hold
  it, so these are the two moments at which one call of \<^verbatim>\<open>Open\<close> can see the others.
\<close>

record Open_answers =
  op_ctx_Value :: bool
  op_mutex_Lock :: "int option"
  op_Seteuid_1 :: "string option"
  op_CreateTUN :: CreateTUN_answers
  op_ConfigureInterface :: ConfigureInterface_answers
  op_Seteuid_2 :: "string option"
  op_Dial :: Dial_answers
  op_Upload :: Upload_answers
  op_Seteuid_3 :: "string option"
  op_LinkUp :: LinkUp_answers
  op_Seteuid_4 :: "string option"
  op_Tunneling :: Tunneling_answers
  op_StartTunneling_others :: "int option"
  op_ctx_Err :: bool

text \<open>
  The place where a call of \<^verbatim>\<open>Open\<close> returns. It is not a value of the program: each
  \<^verbatim>\<open>return\<close> of the model carries the name of the step that made it, so that a theorem can
  speak about the step that failed.
\<close>

datatype Open_step =
    At_context
  | At_Become_1
  | At_CreateTUN
  | At_ConfigureInterface
  | At_Unbecome_1
  | At_Dial
  | At_Upload
  | At_Become_2
  | At_LinkUp
  | At_Unbecome_2
  | At_StartTunneling
  | At_end

record Open_result =
  returned :: "error option"
  left_at :: Open_step
  tunnel :: SSHTUN
  outside :: world

text \<open>
  \<^verbatim>\<open>Open\<close>. The watcher of the context, the keepalive goroutine and the deferred closing of
  the device and of the channels are not modelled. The mutex is modelled by what it lets
  through: \<open>w0\<close> is the world when \<^verbatim>\<open>v.mutex.Lock()\<close> has returned, no other tunnel changes the
  effective UID from there to \<^verbatim>\<open>v.mutex.Unlock()\<close> (a return before that line unlocks in the
  deferred function, at the return), and \<open>w7\<close> is the world when \<^verbatim>\<open>StartTunneling\<close> has
  returned, after the other tunnels have run without the mutex being held by this one.
\<close>

definition Open :: "Open_answers \<Rightarrow> SSHTUN \<Rightarrow> world \<Rightarrow> Open_result" where
  "Open a s w =
     (if \<not> op_ctx_Value a
      then \<lparr>returned = Some ErrMissingContext, left_at = At_context, tunnel = s, outside = w\<rparr>
      else
      let w0 = others (op_mutex_Lock a) w in
      case SSHTUN_Become (op_Seteuid_1 a) ROOT w0 of
        (Inl err, w1) \<Rightarrow>
          \<lparr>returned = Some (unrecoverable err), left_at = At_Become_1, tunnel = s, outside = w1\<rparr>
      | (Inr b, w1) \<Rightarrow>
      (case CreateTUN (op_CreateTUN a) (LocalTunDevice s) (LocalMTU s) 0 0 of
        Inl err \<Rightarrow>
          \<lparr>returned = Some (unrecoverable err), left_at = At_CreateTUN, tunnel = s, outside = w1\<rparr>
      | Inr localTUN \<Rightarrow>
      (let s1 = s\<lparr>LocalTunDevice := tun_Name localTUN\<rparr> in
       case ConfigureInterface (op_ConfigureInterface a) (LocalNetwork s1) of
        Inl err \<Rightarrow>
          \<lparr>returned = Some (unrecoverable err), left_at = At_ConfigureInterface, tunnel = s1,
           outside = w1\<rparr>
      | Inr configured \<Rightarrow>
      (case Unbecome (op_Seteuid_2 a) b w1 of
        (Inl err, w2) \<Rightarrow>
          \<lparr>returned = Some (unrecoverable err), left_at = At_Unbecome_1, tunnel = s1, outside = w2\<rparr>
      | (Inr b2, w2) \<Rightarrow>
      (case Dial (op_Dial a) s1 of
        Inl err \<Rightarrow> \<lparr>returned = Some err, left_at = At_Dial, tunnel = s1, outside = w2\<rparr>
      | Inr client \<Rightarrow>
      (case UploadHelperToRemote (op_Upload a) s1 [] w2 of
        (Some err, s2, w3) \<Rightarrow>
          \<lparr>returned = Some err, left_at = At_Upload, tunnel = s2, outside = w3\<rparr>
      | (None, s2, w3) \<Rightarrow>
      (case Became_Become (op_Seteuid_3 a) b2 ROOT w3 of
        (Inl err, w4) \<Rightarrow>
          \<lparr>returned = Some (unrecoverable err), left_at = At_Become_2, tunnel = s2, outside = w4\<rparr>
      | (Inr b3, w4) \<Rightarrow>
      (case LinkUp (op_LinkUp a) of
        Inl err \<Rightarrow>
          \<lparr>returned = Some (unrecoverable err), left_at = At_LinkUp, tunnel = s2, outside = w4\<rparr>
      | Inr flags \<Rightarrow>
      (case Unbecome (op_Seteuid_4 a) b3 w4 of
        (Inl err, w5) \<Rightarrow>
          \<lparr>returned = Some (unrecoverable err), left_at = At_Unbecome_2, tunnel = s2, outside = w5\<rparr>
      | (Inr b4, w5) \<Rightarrow>
      (case StartTunneling (op_Tunneling a) s2 w5 of
        (Some err, w6) \<Rightarrow>
          (let w7 = others (op_StartTunneling_others a) w6 in
           if \<not> op_ctx_Err a
           then \<lparr>returned = Some (Errorf ''sshtun.StartTunneling: %w'' [err]),
                 left_at = At_StartTunneling, tunnel = s2, outside = w7\<rparr>
           else \<lparr>returned = None, left_at = At_end, tunnel = s2, outside = w7\<rparr>)
      | (None, w6) \<Rightarrow>
          (let w7 = others (op_StartTunneling_others a) w6 in
           \<lparr>returned = None, left_at = At_end, tunnel = s2, outside = w7\<rparr>)))))))))))"

subsection \<open>Example inputs\<close>

text \<open>
  The second tunnel of the example configuration of the README, in the state that the log of
  the README shows after the helper has been uploaded.
\<close>

definition readme_tunnel :: SSHTUN where
  "readme_tunnel =
     \<lparr>Name = ''example2'', Comment = [], Protocol = ''tcp'',
      LocalNetwork = ''172.19.0.1/24'', LocalTunDevice = ''tun1'', LocalMTU = 0,
      Remote = ''anothermachine:22'', RemoteNetwork = ''172.19.0.2/24'',
      RemoteTunDevice = ''tun1'', RemoteMTU = 0, RemoteUser = ''abc123'',
      UseSSHAgent = False, PrivateKeyFiles = [''~/.ssh/id_rsa''],
      RemoteUploadDirectory = [], RemoteSCP = ''/usr/bin/scp'', Enable = True,
      KeepaliveInterval = 30 * Second, KeepaliveMaxErrorCount = 5,
      remoteTunReadWriter = ''/tmp/tunreadwriter-20231012T225150-8296832003517942891'',
      done_field = False\<rparr>"

text \<open>
  An outside that grants every call, with no other tunnel changing the effective UID: all
  answers are successes.
\<close>

definition granted :: Open_answers where
  "granted =
     \<lparr>op_ctx_Value = True,
      op_mutex_Lock = None,
      op_Seteuid_1 = None,
      op_CreateTUN =
        \<lparr>ct_Open = Inr 3, ct_ioctl_TUNSETIFF = Inr ''tun1'',
         ct_SetMTU = \<lparr>mtu_Socket = None, mtu_ioctl_SIOCSIFMTU = None\<rparr>,
         ct_ioctl_TUNSETOWNER = None, ct_ioctl_TUNSETGROUP = None\<rparr>,
      op_ConfigureInterface =
        \<lparr>ci_parseIPv6 = (\<lambda>s. None), ci_Socket = None, ci_ioctl_SIOCSIFADDR = None,
         ci_ioctl_SIOCSIFNETMASK = None\<rparr>,
      op_Seteuid_2 = None,
      op_Dial =
        \<lparr>dl_Getenv_SSH_AUTH_SOCK = [], dl_net_Dial_unix = None, dl_agent_Signers = Inr [],
         dl_key_file = (\<lambda>pk. Parsed_signer pk), dl_DialContext = None,
         dl_NewClientConn = None\<rparr>,
      op_Upload =
        \<lparr>up_NewSession = None, up_now = ''20231012T225150'',
         up_Int63 = 8296832003517942891, up_StdoutPipe = None, up_StderrPipe = None,
         up_Run = None, up_StdinPipe = None\<rparr>,
      op_Seteuid_3 = None,
      op_LinkUp =
        \<lparr>lu_Socket = None, lu_ioctl_SIOCGIFFLAGS = Inr 0, lu_ioctl_SIOCSIFFLAGS = None\<rparr>,
      op_Seteuid_4 = None,
      op_Tunneling =
        \<lparr>tn_NewSession = None, tn_StdinPipe = None, tn_StdoutPipe = None,
         tn_StderrPipe = None, tn_Start = None, tn_Wait = None\<rparr>,
      op_StartTunneling_others = None,
      op_ctx_Err = False\<rparr>"

text \<open>The process of an unprivileged user: effective UID 1000, nothing run on a remote host yet.\<close>

definition user_world :: world where
  "user_world = \<lparr>euid = 1000, ran = []\<rparr>"

text \<open>A tunnel set of two tunnels, neither of them enabled.\<close>

definition two_disabled :: Tunnels where
  "two_disabled =
     \<lparr>Tunnels = [readme_tunnel\<lparr>Name := ''example'', Enable := False\<rparr>,
                 readme_tunnel\<lparr>Enable := False\<rparr>]\<rparr>"

text \<open>
  A worker whose first call of \<^verbatim>\<open>Open\<close> fails at the dial and whose second call fails
  when the effective UID cannot be changed, with the timer firing in between.
\<close>

definition dial_then_eperm :: "nat \<Rightarrow> error option" where
  "dial_then_eperm i =
     (if i = 0 then Some (Foreign ''dial tcp: i/o timeout'')
      else Some (unrecoverable (Foreign ''operation not permitted'')))"

text \<open>
  The tunnel of the README before the upload, with a remote upload directory of its own in
  the configuration.
\<close>

definition var_tmp_tunnel :: SSHTUN where
  "var_tmp_tunnel = readme_tunnel\<lparr>RemoteUploadDirectory := ''/var/tmp'', remoteTunReadWriter := []\<rparr>"

text \<open>The same tunnel with the invalid local network of the test of \<^verbatim>\<open>ConfigureInterface\<close>.\<close>

definition invalid_cidr_tunnel :: SSHTUN where
  "invalid_cidr_tunnel = var_tmp_tunnel\<lparr>LocalNetwork := ''192.168.99.256/29''\<rparr>"

text \<open>An outside that grants every call but the TCP connection to the SSH server.\<close>

definition dial_refused :: Open_answers where
  "dial_refused =
     granted\<lparr>op_Dial := (op_Dial granted)\<lparr>dl_DialContext := Some ''connection refused''\<rparr>\<rparr>"

text \<open>
  An outside that grants every call, in a process with a second tunnel: when the tunnel of
  this call closes, the other tunnel is in its own call of \<^verbatim>\<open>Open\<close>, which holds the mutex
  and has changed the effective UID to 0.
\<close>

definition other_tunnel_opening :: Open_answers where
  "other_tunnel_opening = granted\<lparr>op_StartTunneling_others := Some 0\<rparr>"

text \<open>An outside that grants every call but the change of the flags of the interface.\<close>

definition link_refused :: Open_answers where
  "link_refused =
     granted\<lparr>op_LinkUp := (op_LinkUp granted)\<lparr>lu_ioctl_SIOCSIFFLAGS := Some ''operation not permitted''\<rparr>\<rparr>"

text \<open>
  An outside that refuses the first change of the effective UID, as the kernel does when the
  executable is not owned by root with the setuid bit.
\<close>

definition seteuid_refused :: Open_answers where
  "seteuid_refused = granted\<lparr>op_Seteuid_1 := Some ''operation not permitted''\<rparr>"

text \<open>SSH sessions for \<^verbatim>\<open>StartTunneling\<close> in which one of the three pipes cannot be opened.\<close>

definition no_stdin :: Tunneling_answers where
  "no_stdin = (op_Tunneling granted)\<lparr>tn_StdinPipe := Some ''ssh: Stdin already set''\<rparr>"

definition no_stdout :: Tunneling_answers where
  "no_stdout = (op_Tunneling granted)\<lparr>tn_StdoutPipe := Some ''ssh: Stdout already set''\<rparr>"

definition no_stderr :: Tunneling_answers where
  "no_stderr = (op_Tunneling granted)\<lparr>tn_StderrPipe := Some ''ssh: Stderr already set''\<rparr>"

text \<open>
  An IPv6 parser that knows one address, the loopback address \<^verbatim>\<open>::1\<close>, and the answers of
  \<^verbatim>\<open>ConfigureInterface\<close> with it.
\<close>

definition parse_loopback6 :: "string \<Rightarrow> (nat list \<times> string) option" where
  "parse_loopback6 s =
     (if s = ''::1'' then Some ([0, 0, 0, 0, 0, 0, 0, 0, 0, 0, 0, 0, 0, 0, 0, 1], []) else None)"

definition loopback6_answers :: ConfigureInterface_answers where
  "loopback6_answers = (op_ConfigureInterface granted)\<lparr>ci_parseIPv6 := parse_loopback6\<rparr>"

text \<open>
  An IPv6 parser that knows one address, the IPv4-mapped address \<^verbatim>\<open>::ffff:1.2.3.4\<close>, and
  the answers of \<^verbatim>\<open>ConfigureInterface\<close> with it.
\<close>

definition parse_mapped6 :: "string \<Rightarrow> (nat list \<times> string) option" where
  "parse_mapped6 s =
     (if s = ''::ffff:1.2.3.4''
      then Some ([0, 0, 0, 0, 0, 0, 0, 0, 0, 0, 255, 255, 1, 2, 3, 4], []) else None)"

definition mapped6_answers :: ConfigureInterface_answers where
  "mapped6_answers = (op_ConfigureInterface granted)\<lparr>ci_parseIPv6 := parse_mapped6\<rparr>"

text \<open>The tunnel of the README with a remote device name that is not safe for a shell.\<close>

definition hostile_tunnel :: SSHTUN where
  "hostile_tunnel = readme_tunnel\<lparr>RemoteTunDevice := ''tun1; reboot''\<rparr>"

section \<open>Properties\<close>

subsection \<open>Error chains and decimal formatting\<close>

lemma errors_Is_unrecoverable: "errors_Is (unrecoverable err) ErrUnrecoverable"
  by (simp add: unrecoverable_def)

lemma digit_char_in_digits: "d < 10 \<Longrightarrow> digit_char d \<in> set ''0123456789''"
proof -
  assume "d < 10"
  then have "d < length ''0123456789''" by simp
  then show ?thesis unfolding digit_char_def by (rule nth_mem)
qed

lemma utoa_not_Nil: "utoa n \<noteq> []"
  by (subst utoa.simps) simp

lemma utoa_digits: "set (utoa n) \<subseteq> set ''0123456789''"
proof (induction n rule: utoa.induct)
  case (1 n)
  show ?case
  proof (cases "n < 10")
    case True
    then show ?thesis
      using digit_char_in_digits [of n] by (subst utoa.simps) simp
  next
    case False
    have "n mod 10 < 10" by simp
    then have "digit_char (n mod 10) \<in> set ''0123456789''" by (rule digit_char_in_digits)
    with False "1.IH" show ?thesis by (subst utoa.simps) simp
  qed
qed

lemma Itoa_not_Nil: "Itoa i \<noteq> []"
  by (simp add: Itoa_def utoa_not_Nil)

lemma Itoa_chars: "set (Itoa i) \<subseteq> set ''-0123456789''"
proof (cases "i < 0")
  case True
  have mono: "set (c # xs) \<subseteq> set (c # ys)" if "set xs \<subseteq> set ys" for c :: char and xs ys
    using that by auto
  have "set (CHR ''-'' # utoa (nat (- i))) \<subseteq> set (CHR ''-'' # ''0123456789'')"
    by (rule mono) (rule utoa_digits)
  with True show ?thesis by (simp only: Itoa_def if_True)
next
  case False
  have "set (utoa (nat i)) \<subseteq> set (CHR ''-'' # ''0123456789'')"
    using utoa_digits set_subset_Cons by (rule order_trans)
  with False show ?thesis by (simp only: Itoa_def if_False)
qed

lemma Itoa_2: "Itoa 2 = ''2''"
  by (simp add: Itoa_def utoa.simps digit_char_def)

subsection \<open>The supervisor\<close>

lemma OpenAll_loop_filter:
  "OpenAll_loop ts n started = (n + length (filter Enable ts), started @ filter Enable ts)"
  by (induction ts arbitrary: n started) auto

text \<open>
  Claim C9. When no tunnel of the set is enabled, \<^verbatim>\<open>OpenAll\<close> returns, whatever the fuel
  and the answers, the error whose message is \<^verbatim>\<open>0 out of <total> tunnel(s) marked enabled in
  configuration\<close>, where the total is the number of tunnels of the set in decimal.
\<close>

theorem OpenAll_none_enabled:
  assumes "\<forall>tunnel \<in> set (Tunnels t). \<not> Enable tunnel"
  shows "OpenAll fuel opens sel t =
     Some (Some (ErrorString (''0 out of '' @ Itoa (int (length (Tunnels t)))
                              @ '' tunnel(s) marked enabled in configuration'')))"
proof -
  from assms have "filter Enable (Tunnels t) = []"
    by (simp add: filter_empty_conv)
  then show ?thesis
    by (simp add: OpenAll_def OpenAll_loop_filter)
qed

theorem OpenAll_none_enabled_witness:
  "map Enable (Tunnels two_disabled) = [False, False] \<and>
   OpenAll 0 (\<lambda>k i. None) (\<lambda>k i. Timer_C) two_disabled =
     Some (Some (ErrorString ''0 out of 2 tunnel(s) marked enabled in configuration''))"
proof -
  have h: "\<forall>tunnel \<in> set (Tunnels two_disabled). \<not> Enable tunnel"
    by (simp add: two_disabled_def)
  have "length (Tunnels two_disabled) = 2"
    by (simp add: two_disabled_def)
  moreover have "map Enable (Tunnels two_disabled) = [False, False]"
    by (simp add: two_disabled_def)
  ultimately show ?thesis
    using OpenAll_none_enabled [OF h, of 0 "\<lambda>k i. None" "\<lambda>k i. Timer_C"]
    by (simp add: Itoa_2)
qed

lemma worker_stop_unrecoverable:
  "failed_unrecoverable (opens i) \<Longrightarrow>
   worker (Suc fuel) opens sel i = Some [Open_returned (opens i), Wg_Done]"
  by (simp add: Let_def)

lemma worker_stop_cancelled:
  "\<not> failed_unrecoverable (opens i) \<Longrightarrow> sel i = Ctx_Done \<Longrightarrow>
   worker (Suc fuel) opens sel i =
     Some [Open_returned (opens i), New_Timer (5 * Second), Wg_Done]"
  by (simp add: Let_def)

lemma worker_retry:
  "\<not> failed_unrecoverable (opens i) \<Longrightarrow> sel i = Timer_C \<Longrightarrow>
   worker (Suc fuel) opens sel i =
     map_option (\<lambda>rest. Open_returned (opens i) # New_Timer (5 * Second) # rest)
       (worker fuel opens sel (Suc i))"
  by (simp add: Let_def split: option.splits)

lemma worker_runs:
  "worker fuel opens sel i = Some tr \<longleftrightarrow>
     (\<exists>k. k < fuel \<and>
        (\<forall>j<k. \<not> failed_unrecoverable (opens (i + j)) \<and> sel (i + j) = Timer_C) \<and>
        (failed_unrecoverable (opens (i + k)) \<or> sel (i + k) = Ctx_Done) \<and>
        tr = concat (map (\<lambda>j. [Open_returned (opens (i + j)), New_Timer (5 * Second)]) [0..<k]) @
             (if failed_unrecoverable (opens (i + k)) then [Open_returned (opens (i + k)), Wg_Done]
              else [Open_returned (opens (i + k)), New_Timer (5 * Second), Wg_Done]))"
proof (induction fuel arbitrary: i tr)
  case 0
  then show ?case by simp
next
  case (Suc fuel)
  let ?pre = "\<lambda>i. [Open_returned (opens i), New_Timer (5 * Second)]"
  let ?fin = "\<lambda>i. if failed_unrecoverable (opens i) then [Open_returned (opens i), Wg_Done]
              else [Open_returned (opens i), New_Timer (5 * Second), Wg_Done]"
  let ?rhs = "\<lambda>fuel i tr. \<exists>k. k < fuel \<and>
        (\<forall>j<k. \<not> failed_unrecoverable (opens (i + j)) \<and> sel (i + j) = Timer_C) \<and>
        (failed_unrecoverable (opens (i + k)) \<or> sel (i + k) = Ctx_Done) \<and>
        tr = concat (map (\<lambda>j. ?pre (i + j)) [0..<k]) @ ?fin (i + k)"
  show ?case
  proof (cases "failed_unrecoverable (opens i) \<or> sel i = Ctx_Done")
    case True
    then have L: "worker (Suc fuel) opens sel i = Some (?fin i)"
      using worker_stop_unrecoverable [of opens i fuel sel]
        worker_stop_cancelled [of opens i sel fuel]
      by auto
    show ?thesis
    proof
      assume "worker (Suc fuel) opens sel i = Some tr"
      with L have "tr = ?fin i" by simp
      with True show "?rhs (Suc fuel) i tr"
        by (intro exI [of _ 0]) simp
    next
      assume "?rhs (Suc fuel) i tr"
      then obtain k
        where k: "\<forall>j<k. \<not> failed_unrecoverable (opens (i + j)) \<and> sel (i + j) = Timer_C"
          and tr: "tr = concat (map (\<lambda>j. ?pre (i + j)) [0..<k]) @ ?fin (i + k)"
        by blast
      have "k = 0"
      proof (rule ccontr)
        assume "k \<noteq> 0"
        then have "0 < k" by simp
        with k have "\<not> failed_unrecoverable (opens (i + 0)) \<and> sel (i + 0) = Timer_C"
          by blast
        with True show False by simp
      qed
      with tr L show "worker (Suc fuel) opens sel i = Some tr" by simp
    qed
  next
    case False
    then have nu: "\<not> failed_unrecoverable (opens i)" and tc: "sel i = Timer_C"
      by (auto intro: select_case.exhaust)
    have L: "worker (Suc fuel) opens sel i =
        map_option (\<lambda>rest. ?pre i @ rest) (worker fuel opens sel (Suc i))"
      using worker_retry [of opens i sel fuel] nu tc by simp
    have shift: "concat (map (\<lambda>j. ?pre (i + j)) [0..<Suc k]) =
        ?pre i @ concat (map (\<lambda>j. ?pre (Suc i + j)) [0..<k])" for k
      by (simp add: upt_conv_Cons map_Suc_upt [symmetric] comp_def del: upt_Suc)
    show ?thesis
    proof
      assume "worker (Suc fuel) opens sel i = Some tr"
      with L obtain rest where r: "worker fuel opens sel (Suc i) = Some rest"
        and tr: "tr = ?pre i @ rest" by auto
      from r Suc.IH [of "Suc i" rest] obtain k where kf: "k < fuel"
        and kj: "\<forall>j<k. \<not> failed_unrecoverable (opens (Suc i + j)) \<and> sel (Suc i + j) = Timer_C"
        and ks: "failed_unrecoverable (opens (Suc i + k)) \<or> sel (Suc i + k) = Ctx_Done"
        and kr: "rest = concat (map (\<lambda>j. ?pre (Suc i + j)) [0..<k]) @ ?fin (Suc i + k)"
        by blast
      have all: "\<forall>j<Suc k. \<not> failed_unrecoverable (opens (i + j)) \<and> sel (i + j) = Timer_C"
      proof (intro allI impI)
        fix j assume "j < Suc k"
        show "\<not> failed_unrecoverable (opens (i + j)) \<and> sel (i + j) = Timer_C"
        proof (cases j)
          case 0
          with nu tc show ?thesis by simp
        next
          case (Suc j')
          with \<open>j < Suc k\<close> kj show ?thesis by simp
        qed
      qed
      have "tr = concat (map (\<lambda>j. ?pre (i + j)) [0..<Suc k]) @ ?fin (i + Suc k)"
        unfolding shift using tr kr by simp
      with kf all ks show "?rhs (Suc fuel) i tr"
        by (intro exI [of _ "Suc k"]) simp
    next
      assume "?rhs (Suc fuel) i tr"
      then obtain k where kf: "k < Suc fuel"
        and kj: "\<forall>j<k. \<not> failed_unrecoverable (opens (i + j)) \<and> sel (i + j) = Timer_C"
        and ks: "failed_unrecoverable (opens (i + k)) \<or> sel (i + k) = Ctx_Done"
        and tr: "tr = concat (map (\<lambda>j. ?pre (i + j)) [0..<k]) @ ?fin (i + k)"
        by blast
      from ks False have "k \<noteq> 0" by (cases k) auto
      then obtain k' where k': "k = Suc k'" by (cases k) auto
      have "\<forall>j<k'. \<not> failed_unrecoverable (opens (Suc i + j)) \<and> sel (Suc i + j) = Timer_C"
        using kj k' by auto
      moreover have "k' < fuel" using kf k' by simp
      moreover have "failed_unrecoverable (opens (Suc i + k')) \<or> sel (Suc i + k') = Ctx_Done"
        using ks k' by simp
      ultimately have "worker fuel opens sel (Suc i) =
          Some (concat (map (\<lambda>j. ?pre (Suc i + j)) [0..<k']) @ ?fin (Suc i + k'))"
        using Suc.IH [of "Suc i"] by blast
      with L tr show "worker (Suc fuel) opens sel i = Some tr"
        unfolding k' shift by simp
    qed
  qed
qed

text \<open>
  Claim C3. \<^verbatim>\<open>OpenAll\<close> starts a worker for exactly the enabled tunnels, in order. A worker
  that starts with its \<open>i\<close>-th call of \<^verbatim>\<open>Open\<close> comes to an end within the fuel, leaving
  the trace \<open>tr\<close>, if and only if there is a round \<open>k\<close> such that: in each of the \<open>k\<close>
  rounds before it \<^verbatim>\<open>Open\<close> returned nil or an error without the unrecoverable sentinel in
  its chain, a timer of five seconds was started and fired, and \<^verbatim>\<open>Open\<close> was called again;
  and in round \<open>k\<close> either \<^verbatim>\<open>Open\<close> returned an error with the sentinel in its chain, and
  the worker stopped at once without a timer, or the context was cancelled while the timer of
  five seconds was running, and the worker stopped. Nothing follows the stop.
\<close>

theorem worker_restart_policy:
  "snd (OpenAll_loop ts 0 []) = filter Enable ts \<and>
   (worker fuel opens sel i = Some tr \<longleftrightarrow>
     (\<exists>k. k < fuel \<and>
        (\<forall>j<k. \<not> failed_unrecoverable (opens (i + j)) \<and> sel (i + j) = Timer_C) \<and>
        (failed_unrecoverable (opens (i + k)) \<or> sel (i + k) = Ctx_Done) \<and>
        tr = concat (map (\<lambda>j. [Open_returned (opens (i + j)), New_Timer (5 * Second)]) [0..<k]) @
             (if failed_unrecoverable (opens (i + k)) then [Open_returned (opens (i + k)), Wg_Done]
              else [Open_returned (opens (i + k)), New_Timer (5 * Second), Wg_Done])))"
  using worker_runs [of fuel opens sel i tr] by (simp add: OpenAll_loop_filter)

theorem worker_restart_policy_witness:
  "worker 2 dial_then_eperm (\<lambda>i. Timer_C) 0 =
     Some [Open_returned (Some (Foreign ''dial tcp: i/o timeout'')), New_Timer 5000000000,
           Open_returned (Some (unrecoverable (Foreign ''operation not permitted''))), Wg_Done] \<and>
   \<not> failed_unrecoverable (dial_then_eperm 0) \<and> failed_unrecoverable (dial_then_eperm 1)"
proof -
  have nu: "\<not> failed_unrecoverable (dial_then_eperm 0)"
    by (simp add: failed_unrecoverable_def dial_then_eperm_def)
  have u: "failed_unrecoverable (dial_then_eperm 1)"
    by (simp add: failed_unrecoverable_def dial_then_eperm_def errors_Is_unrecoverable)
  have "\<exists>k. k < 2 \<and>
        (\<forall>j<k. \<not> failed_unrecoverable (dial_then_eperm (0 + j)) \<and> (\<lambda>i. Timer_C) (0 + j) = Timer_C) \<and>
        (failed_unrecoverable (dial_then_eperm (0 + k)) \<or> (\<lambda>i. Timer_C) (0 + k) = Ctx_Done) \<and>
        [Open_returned (Some (Foreign ''dial tcp: i/o timeout'')), New_Timer 5000000000,
           Open_returned (Some (unrecoverable (Foreign ''operation not permitted''))), Wg_Done] =
          concat (map (\<lambda>j. [Open_returned (dial_then_eperm (0 + j)), New_Timer (5 * Second)]) [0..<k]) @
             (if failed_unrecoverable (dial_then_eperm (0 + k)) then [Open_returned (dial_then_eperm (0 + k)), Wg_Done]
              else [Open_returned (dial_then_eperm (0 + k)), New_Timer (5 * Second), Wg_Done])"
    using nu u by (intro exI [of _ 1]) (simp add: dial_then_eperm_def Second_def)
  with worker_restart_policy [of "[]" 2 dial_then_eperm "\<lambda>i. Timer_C" 0
      "[Open_returned (Some (Foreign ''dial tcp: i/o timeout'')), New_Timer 5000000000,
           Open_returned (Some (unrecoverable (Foreign ''operation not permitted''))), Wg_Done]"]
    nu u
  show ?thesis by blast
qed

subsection \<open>The keepalive loop\<close>

lemma failure_run_Nil: "failure_run [] = 0"
  by (simp add: failure_run_def)

lemma failure_run_snoc: "failure_run (oks @ [ok]) = (if ok then 0 else Suc (failure_run oks))"
  by (simp add: failure_run_def)

lemma failure_run_take_Suc:
  "j < length oks \<Longrightarrow>
   failure_run (take (Suc j) oks) = (if oks ! j then 0 else Suc (failure_run (take j oks)))"
  by (simp add: take_Suc_conv_app_nth failure_run_snoc)

lemma failure_run_all_failed: "\<forall>ok \<in> set oks. \<not> ok \<Longrightarrow> failure_run oks = length oks"
proof -
  assume "\<forall>ok \<in> set oks. \<not> ok"
  then have "takeWhile Not (rev oks) = rev oks"
    by (intro takeWhile_eq_all_conv [THEN iffD2]) simp
  then have "length (takeWhile Not (rev oks)) = length (rev oks)" by (rule arg_cong)
  then show ?thesis unfolding failure_run_def by (simp only: length_rev)
qed

text \<open>Each handled tick sets the counter to zero or adds one to it.\<close>

lemma keepalive_loop_step:
  "keepalive_loop countMax n (map Tick oks) = (ns, e) \<Longrightarrow> j < length ns \<Longrightarrow>
   ns ! j = (if oks ! j then 0 else (if j = 0 then n else ns ! (j - 1)) + 1)"
proof (induction oks arbitrary: n ns j)
  case Nil
  then show ?case by simp
next
  case (Cons ok oks)
  show ?case
  proof (cases j)
    case 0
    with Cons.prems show ?thesis
      by (auto simp: Let_def split: if_splits prod.splits)
  next
    case (Suc j')
    with Cons.prems Cons.IH show ?thesis
      by (auto simp: Let_def split: if_splits prod.splits)
  qed
qed

text \<open>
  How the loop ends on ticks alone: either every tick was handled and none of them reached
  the maximum, or the last handled tick failed with the counter at the maximum or above, and
  no tick before it did.
\<close>

lemma keepalive_loop_end:
  "keepalive_loop countMax n (map Tick oks) = (ns, e) \<Longrightarrow>
   (e = Still_running \<and> length ns = length oks \<and> (\<forall>j < length ns. oks ! j \<or> ns ! j < countMax)) \<or>
   (e = Client_closed \<and> ns \<noteq> [] \<and> length ns \<le> length oks \<and> \<not> oks ! (length ns - 1) \<and>
    countMax \<le> last ns \<and> (\<forall>j < length ns - 1. oks ! j \<or> ns ! j < countMax))"
proof (induction oks arbitrary: n ns e)
  case Nil
  then show ?case by simp
next
  case (Cons ok oks)
  show ?case
  proof (cases "\<not> ok \<and> countMax \<le> n + 1")
    case True
    with Cons.prems show ?thesis by (auto simp: Let_def)
  next
    case False
    let ?n' = "if ok then 0 else n + 1"
    obtain ns' e' where r: "keepalive_loop countMax ?n' (map Tick oks) = (ns', e')"
      by (cases "keepalive_loop countMax ?n' (map Tick oks)") auto
    with False Cons.prems have ns: "ns = ?n' # ns'" and e: "e = e'"
      by (auto simp: Let_def split: if_splits)
    from False have head: "ok \<or> ?n' < countMax" by auto
    from Cons.IH [OF r] show ?thesis
    proof
      assume a: "e' = Still_running \<and> length ns' = length oks \<and>
        (\<forall>j<length ns'. oks ! j \<or> ns' ! j < countMax)"
      have "\<forall>j<length ns. (ok # oks) ! j \<or> ns ! j < countMax"
      proof (intro allI impI)
        fix j assume "j < length ns"
        then show "(ok # oks) ! j \<or> ns ! j < countMax"
          using a head ns by (cases j) auto
      qed
      with a ns e show ?thesis by simp
    next
      assume a: "e' = Client_closed \<and> ns' \<noteq> [] \<and> length ns' \<le> length oks \<and>
        \<not> oks ! (length ns' - 1) \<and> countMax \<le> last ns' \<and>
        (\<forall>j<length ns' - 1. oks ! j \<or> ns' ! j < countMax)"
      have "\<forall>j<length ns - 1. (ok # oks) ! j \<or> ns ! j < countMax"
      proof (intro allI impI)
        fix j assume "j < length ns - 1"
        then show "(ok # oks) ! j \<or> ns ! j < countMax"
          using a head ns by (cases j) auto
      qed
      moreover have "\<not> (ok # oks) ! (length ns - 1)"
        using a ns by (cases ns') auto
      ultimately show ?thesis using a ns e by simp
    qed
  qed
qed

text \<open>The counter is the length of the current run of consecutive failures.\<close>

lemma keepalive_counter_is_run:
  assumes "keepalive_loop countMax 0 (map Tick oks) = (ns, e)" and "j < length ns"
  shows "ns ! j = int (failure_run (take (Suc j) oks))"
  using assms(2)
proof (induction j)
  case 0
  have "0 < length oks" using keepalive_loop_end [OF assms(1)] 0 by auto
  then show ?case
    using keepalive_loop_step [OF assms(1) 0] failure_run_take_Suc [of 0 oks]
    by (simp add: failure_run_Nil)
next
  case (Suc j)
  have len: "Suc j < length oks" using keepalive_loop_end [OF assms(1)] Suc.prems by auto
  have "ns ! j = int (failure_run (take (Suc j) oks))" using Suc by simp
  then show ?case
    using keepalive_loop_step [OF assms(1) Suc.prems] failure_run_take_Suc [OF len]
    by simp
qed

text \<open>
  The counter stays between zero and the larger of \<open>countMax\<close> and one, for every sequence
  of events: the increment of the 64-bit counter of the code cannot wrap.
\<close>

lemma keepalive_counters_bounded:
  "0 \<le> n \<Longrightarrow> n < max countMax 1 \<Longrightarrow> c \<in> set (fst (keepalive_loop countMax n events)) \<Longrightarrow>
   0 \<le> c \<and> c \<le> max countMax 1"
proof (induction countMax n events rule: keepalive_loop.induct)
  case (1 countMax n)
  then show ?case by simp
next
  case (2 countMax n events)
  then show ?case by simp
next
  case (3 countMax n ok events)
  show ?case
  proof (cases ok)
    case True
    with 3 show ?thesis by (auto split: prod.splits)
  next
    case False
    show ?thesis
    proof (cases "countMax \<le> n + 1")
      case True
      with False "3.prems" show ?thesis by (auto simp: Let_def)
    next
      case nc: False
      then have "n + 1 < max countMax 1" by simp
      with False nc 3 show ?thesis by (auto simp: Let_def split: prod.splits)
    qed
  qed
qed

lemma keepalive_closed_iff:
  assumes r: "keepalive_loop countMax 0 (map Tick oks) = (ns, e)"
  shows "e = Client_closed \<longleftrightarrow>
    (\<exists>k < length oks. \<not> oks ! k \<and> countMax \<le> int (failure_run (take (Suc k) oks)))"
proof
  assume c: "e = Client_closed"
  with keepalive_loop_end [OF r]
  have ne: "ns \<noteq> []" and le: "length ns \<le> length oks" and f: "\<not> oks ! (length ns - 1)"
    and m: "countMax \<le> last ns"
    by auto
  from ne have lt: "length ns - 1 < length ns" by simp
  from ne have "last ns = ns ! (length ns - 1)" by (simp add: last_conv_nth)
  with keepalive_counter_is_run [OF r lt] m
  have "countMax \<le> int (failure_run (take (Suc (length ns - 1)) oks))" by simp
  moreover from lt le have "length ns - 1 < length oks" by simp
  ultimately show "\<exists>k < length oks. \<not> oks ! k \<and> countMax \<le> int (failure_run (take (Suc k) oks))"
    using f by blast
next
  assume "\<exists>k < length oks. \<not> oks ! k \<and> countMax \<le> int (failure_run (take (Suc k) oks))"
  then obtain k where k: "k < length oks" and f: "\<not> oks ! k"
    and m: "countMax \<le> int (failure_run (take (Suc k) oks))" by blast
  show "e = Client_closed"
  proof (rule ccontr)
    assume "e \<noteq> Client_closed"
    with keepalive_loop_end [OF r]
    have len: "length ns = length oks" and all: "\<forall>j < length ns. oks ! j \<or> ns ! j < countMax"
      by auto
    from k len have kn: "k < length ns" by simp
    with all f have "ns ! k < countMax" by blast
    with keepalive_counter_is_run [OF r kn] m show False by simp
  qed
qed

text \<open>
  Claim C4. On a sequence of keepalive ticks, \<open>oks ! j\<close> telling whether the request of
  tick \<open>j\<close> succeeded, \<^verbatim>\<open>StartKeepalive\<close> keeps in its counter the number of consecutive
  failures: after each handled tick the counter is zero if the request succeeded and one more
  than before if it failed. The loop closes the client and returns exactly at the first
  failed tick at which that number has reached \<open>countMax\<close>; until then it keeps running and
  handles every tick. With \<open>countMax\<close> at least one the counter equals \<open>countMax\<close> at that
  moment, so that ticks that all fail close the client after exactly \<open>countMax\<close> ticks; with
  \<open>countMax\<close> zero (or one) the first failed tick closes the client.
\<close>

theorem StartKeepalive_failure_counting:
  assumes "StartKeepalive countMax (map Tick oks) = (ns, e)"
  shows
    "(\<forall>j < length ns. ns ! j = (if oks ! j then 0 else (if j = 0 then 0 else ns ! (j - 1)) + 1)) \<and>
     (\<forall>j < length ns. ns ! j = int (failure_run (take (Suc j) oks))) \<and>
     (e = Client_closed \<longleftrightarrow>
        (\<exists>k < length oks. \<not> oks ! k \<and> countMax \<le> int (failure_run (take (Suc k) oks)))) \<and>
     (e = Client_closed \<longrightarrow>
        ns \<noteq> [] \<and> length ns \<le> length oks \<and> \<not> oks ! (length ns - 1) \<and>
        countMax \<le> int (failure_run (take (length ns) oks)) \<and>
        (\<forall>j < length ns - 1. oks ! j \<or> int (failure_run (take (Suc j) oks)) < countMax)) \<and>
     (e \<noteq> Client_closed \<longrightarrow> e = Still_running \<and> length ns = length oks) \<and>
     (e = Client_closed \<and> 1 \<le> countMax \<longrightarrow> last ns = countMax) \<and>
     ((\<forall>ok \<in> set oks. \<not> ok) \<and> 1 \<le> countMax \<and> countMax \<le> int (length oks) \<longrightarrow>
        e = Client_closed \<and> int (length ns) = countMax) \<and>
     (countMax \<le> 1 \<longrightarrow>
        (e = Client_closed \<longleftrightarrow> False \<in> set oks) \<and>
        (e = Client_closed \<longrightarrow> (\<forall>j < length ns - 1. oks ! j) \<and> \<not> oks ! (length ns - 1)))"
proof -
  from assms have r: "keepalive_loop countMax 0 (map Tick oks) = (ns, e)"
    by (simp add: StartKeepalive_def)
  note fin = keepalive_loop_end [OF r]
  have run: "ns ! j = int (failure_run (take (Suc j) oks))" if "j < length ns" for j
    using keepalive_counter_is_run [OF r that] .
  have c1: "\<forall>j < length ns. ns ! j = (if oks ! j then 0 else (if j = 0 then 0 else ns ! (j - 1)) + 1)"
    using keepalive_loop_step [OF r] by simp
  have c2: "\<forall>j < length ns. ns ! j = int (failure_run (take (Suc j) oks))"
    using run by simp
  have c3: "e = Client_closed \<longleftrightarrow>
        (\<exists>k < length oks. \<not> oks ! k \<and> countMax \<le> int (failure_run (take (Suc k) oks)))"
    by (rule keepalive_closed_iff [OF r])
  have c4: "ns \<noteq> [] \<and> length ns \<le> length oks \<and> \<not> oks ! (length ns - 1) \<and>
        countMax \<le> int (failure_run (take (length ns) oks)) \<and>
        (\<forall>j < length ns - 1. oks ! j \<or> int (failure_run (take (Suc j) oks)) < countMax)"
    if c: "e = Client_closed"
  proof -
    from fin c have ne: "ns \<noteq> []" and le: "length ns \<le> length oks"
      and f: "\<not> oks ! (length ns - 1)" and m: "countMax \<le> last ns"
      and b: "\<forall>j < length ns - 1. oks ! j \<or> ns ! j < countMax"
      by auto
    from ne have lt: "length ns - 1 < length ns" by simp
    from ne have "last ns = ns ! (length ns - 1)" by (simp add: last_conv_nth)
    with run [OF lt] m ne have "countMax \<le> int (failure_run (take (length ns) oks))" by simp
    moreover have "\<forall>j < length ns - 1. oks ! j \<or> int (failure_run (take (Suc j) oks)) < countMax"
    proof (intro allI impI)
      fix j assume j: "j < length ns - 1"
      then have "j < length ns" by simp
      from run [OF this] b j
      show "oks ! j \<or> int (failure_run (take (Suc j) oks)) < countMax" by auto
    qed
    ultimately show ?thesis using ne le f by simp
  qed
  have c5: "e = Still_running \<and> length ns = length oks" if "e \<noteq> Client_closed"
    using fin that by auto
  have c6: "last ns = countMax" if c: "e = Client_closed" and p: "1 \<le> countMax"
  proof -
    from fin c have ne: "ns \<noteq> []" and m: "countMax \<le> last ns"
      and b: "\<forall>j < length ns - 1. oks ! j \<or> ns ! j < countMax"
      by auto
    let ?l = "length ns - 1"
    from ne have lt: "?l < length ns" by simp
    from ne have last: "last ns = ns ! ?l" by (simp add: last_conv_nth)
    have "ns ! ?l \<le> countMax"
    proof (cases "?l = 0")
      case True
      with c1 lt have "ns ! ?l = 0 \<or> ns ! ?l = 1" by (auto split: if_splits)
      with p show ?thesis by auto
    next
      case False
      then have pl: "?l - 1 < length ns - 1" by simp
      then have pl': "?l - 1 < length ns" by simp
      from c1 pl' have prev: "ns ! (?l - 1) = 0 \<or> \<not> oks ! (?l - 1)" by (auto split: if_splits)
      from b pl have "oks ! (?l - 1) \<or> ns ! (?l - 1) < countMax" by blast
      with prev p have "ns ! (?l - 1) < countMax" by auto
      moreover from c1 lt False have "ns ! ?l = 0 \<or> ns ! ?l = ns ! (?l - 1) + 1"
        by (auto split: if_splits)
      ultimately show ?thesis using p by auto
    qed
    with m last show ?thesis by simp
  qed
  have c7: "e = Client_closed \<and> int (length ns) = countMax"
    if a: "\<forall>ok \<in> set oks. \<not> ok" and p: "1 \<le> countMax" and l: "countMax \<le> int (length oks)"
  proof -
    have allf: "\<not> oks ! j" if "j < length oks" for j
      using a nth_mem [OF that] by blast
    have runj: "failure_run (take (Suc j) oks) = Suc j" if "j < length oks" for j
    proof -
      have "\<forall>ok \<in> set (take (Suc j) oks). \<not> ok"
        using a by (auto dest: in_set_takeD)
      then have "failure_run (take (Suc j) oks) = length (take (Suc j) oks)"
        by (rule failure_run_all_failed)
      with that show ?thesis by simp
    qed
    let ?k = "nat countMax - 1"
    from p l have k: "?k < length oks" by simp
    from p have "countMax \<le> int (Suc ?k)" by simp
    with runj [OF k] allf [OF k] k c3 have closed: "e = Client_closed" by auto
    from c6 [OF closed p] have lastn: "last ns = countMax" .
    from c4 [OF closed] have ne: "ns \<noteq> []" and le: "length ns \<le> length oks" by auto
    from ne have lt: "length ns - 1 < length ns" by simp
    from ne have "last ns = ns ! (length ns - 1)" by (simp add: last_conv_nth)
    with run [OF lt] lastn ne have "countMax = int (failure_run (take (length ns) oks))" by simp
    moreover from lt le have "length ns - 1 < length oks" by simp
    from runj [OF this] ne have "failure_run (take (length ns) oks) = length ns" by simp
    ultimately show ?thesis using closed by simp
  qed
  have c8: "(e = Client_closed \<longleftrightarrow> False \<in> set oks) \<and>
        (e = Client_closed \<longrightarrow> (\<forall>j < length ns - 1. oks ! j) \<and> \<not> oks ! (length ns - 1))"
    if s: "countMax \<le> 1"
  proof -
    have big: "countMax \<le> int (failure_run (take (Suc k) oks))" if "k < length oks" "\<not> oks ! k" for k
      using failure_run_take_Suc [OF that(1)] that(2) s by simp
    have "e = Client_closed \<longleftrightarrow> (\<exists>k < length oks. \<not> oks ! k)"
      using c3 big by blast
    also have "\<dots> \<longleftrightarrow> False \<in> set oks"
      by (auto simp: in_set_conv_nth)
    finally have one: "e = Client_closed \<longleftrightarrow> False \<in> set oks" .
    have two: "(\<forall>j < length ns - 1. oks ! j) \<and> \<not> oks ! (length ns - 1)" if c: "e = Client_closed"
    proof -
      from c4 [OF c] have le: "length ns \<le> length oks" and f: "\<not> oks ! (length ns - 1)"
        and b: "\<forall>j < length ns - 1. oks ! j \<or> int (failure_run (take (Suc j) oks)) < countMax"
        by auto
      have "oks ! j" if j: "j < length ns - 1" for j
      proof (rule ccontr)
        assume n: "\<not> oks ! j"
        from j le have "j < length oks" by simp
        from big [OF this n] b j n show False by auto
      qed
      with f show ?thesis by simp
    qed
    from one two show ?thesis by blast
  qed
  from c1 c2 c3 c4 c5 c6 c7 c8 show ?thesis by blast
qed

theorem StartKeepalive_failure_counting_witness:
  "StartKeepalive 3 (map Tick [False, False, True, False, False, False, True]) =
     ([1, 2, 0, 1, 2, 3], Client_closed) \<and>
   last [1, 2, 0, 1, 2, 3] = (3 :: int) \<and>
   StartKeepalive 0 (map Tick [True, False, True]) = ([0, 1], Client_closed) \<and>
   False \<in> set [True, False, True]"
proof -
  have a: "StartKeepalive 3 (map Tick [False, False, True, False, False, False, True]) =
     ([1, 2, 0, 1, 2, 3], Client_closed)"
    by (simp add: StartKeepalive_def)
  have b: "StartKeepalive 0 (map Tick [True, False, True]) = ([0, 1], Client_closed)"
    by (simp add: StartKeepalive_def)
  note at_max = StartKeepalive_failure_counting [OF a, THEN conjunct2, THEN conjunct2,
      THEN conjunct2, THEN conjunct2, THEN conjunct2, THEN conjunct1]
  note at_zero = StartKeepalive_failure_counting [OF b, THEN conjunct2, THEN conjunct2,
      THEN conjunct2, THEN conjunct2, THEN conjunct2, THEN conjunct2, THEN conjunct2]
  from at_max have "last [1, 2, 0, 1, 2, 3] = (3 :: int)" by simp
  moreover from at_zero have "False \<in> set [True, False, True]" by simp
  ultimately show ?thesis using a b by simp
qed

subsection \<open>Evaluation on the example inputs\<close>

lemmas path_defs = Join_def Clean_def is_sep_def

lemmas cidr_defs = ParseCIDR_def ParseAddr_def parseIPv4_def is_digit_def digit_val_def dtoi_def
  big_def BitLen_def Zone_def CIDRMask_def As16_def mask_byte_def To4_def ParseError_def

lemmas gate_defs = SSHTUN_Become_def Unbecome_def Became_Become_def Seteuid_def Geteuid_def ROOT_def
  uid_t_def others_def

lemmas quote_defs = Quote_def shell_safe_def squote_def dquote_def

lemmas step_defs = CreateTUN_def IFNAMSIZ_def ConfigureInterface_def Dial_def
  UploadHelperToRemote_def LinkUp_def IFF_UP_def IFF_BROADCAST_def IFF_RUNNING_def
  StartTunneling_def remoteTunReadWriterCommand_def Itoa_def utoa.simps digit_char_def

lemmas example_defs = granted_def readme_tunnel_def var_tmp_tunnel_def user_world_def

lemma CIDRMask_loop_4:
  "CIDRMask_loop 4 n = [mask_byte n, mask_byte (n - 8), mask_byte (n - 16), mask_byte (n - 24)]"
  by (simp add: numeral_eq_Suc)

text \<open>The run of the README: every call is granted.\<close>

lemma Open_granted:
  "Open granted var_tmp_tunnel user_world =
     \<lparr>returned = None, left_at = At_end,
      tunnel = readme_tunnel\<lparr>RemoteUploadDirectory := ''/var/tmp''\<rparr>,
      outside = \<lparr>euid = 1000,
        ran = [''/usr/bin/scp -t /tmp'',
               ''sudo /tmp/tunreadwriter-20231012T225150-8296832003517942891 -delete -dev tun1 -net 172.19.0.2/24 -mtu 0'']\<rparr>\<rparr>"
  by (simp add: Open_def Let_def example_defs gate_defs step_defs cidr_defs CIDRMask_loop_4
      path_defs quote_defs)

lemma Open_invalid_cidr:
  "Open granted invalid_cidr_tunnel user_world =
     \<lparr>returned = Some (unrecoverable (ParseError ''CIDR address'' ''192.168.99.256/29'')),
      left_at = At_ConfigureInterface, tunnel = invalid_cidr_tunnel,
      outside = \<lparr>euid = 0, ran = []\<rparr>\<rparr>"
  by (simp add: Open_def Let_def invalid_cidr_tunnel_def example_defs gate_defs step_defs
      cidr_defs)

lemma Open_dial_refused:
  "Open dial_refused var_tmp_tunnel user_world =
     \<lparr>returned = Some (Foreign ''connection refused''), left_at = At_Dial,
      tunnel = var_tmp_tunnel, outside = user_world\<rparr>"
  by (simp add: Open_def Let_def dial_refused_def example_defs gate_defs step_defs cidr_defs
      CIDRMask_loop_4)

lemma Open_other_tunnel_opening:
  "Open other_tunnel_opening var_tmp_tunnel user_world =
     \<lparr>returned = None, left_at = At_end,
      tunnel = readme_tunnel\<lparr>RemoteUploadDirectory := ''/var/tmp''\<rparr>,
      outside = \<lparr>euid = 0,
        ran = [''/usr/bin/scp -t /tmp'',
               ''sudo /tmp/tunreadwriter-20231012T225150-8296832003517942891 -delete -dev tun1 -net 172.19.0.2/24 -mtu 0'']\<rparr>\<rparr>"
  by (simp add: Open_def Let_def other_tunnel_opening_def example_defs gate_defs step_defs
      cidr_defs CIDRMask_loop_4 path_defs quote_defs)

subsection \<open>The privilege gate\<close>

lemma valid_uid_uid_t: "valid_uid uid \<Longrightarrow> uid_t uid = uid \<and> uid_t uid \<noteq> 2 ^ 32 - 1"
  by (simp add: valid_uid_def uid_t_def)

lemma valid_uid_ROOT: "valid_uid ROOT"
  by (simp add: valid_uid_def ROOT_def)

lemma Seteuid_granted:
  "valid_uid uid \<Longrightarrow> Seteuid None uid w = (None, w\<lparr>euid := uid\<rparr>)"
  by (simp add: Seteuid_def uid_t_def valid_uid_def)

text \<open>
  Beyond the 32 bits of \<^verbatim>\<open>uid_t\<close>: \<^verbatim>\<open>Become(4294967296)\<close> makes the process root, and
  \<^verbatim>\<open>Become(-1)\<close> changes nothing.
\<close>

lemma Become_beyond_uid_t:
  "SSHTUN_Become None 4294967296 user_world =
     (Inr \<lparr>originalUID = 1000, becameUID = 0\<rparr>, \<lparr>euid = 0, ran = []\<rparr>) \<and>
   SSHTUN_Become None (- 1) user_world =
     (Inr \<lparr>originalUID = 1000, becameUID = 1000\<rparr>, \<lparr>euid = 1000, ran = []\<rparr>)"
  by (simp add: gate_defs user_world_def)

lemma Seteuid_result:
  "Seteuid answer uid w = (r, w') \<Longrightarrow>
   ran w' = ran w \<and> (r \<noteq> None \<longrightarrow> w' = w) \<and> (r = None \<longrightarrow> answer = None) \<and>
   (r = None \<and> valid_uid uid \<longrightarrow> euid w' = uid) \<and>
   (\<forall>e. r = Some e \<longrightarrow> (\<exists>errno. answer = Some errno \<and> e = Foreign errno))"
  by (auto simp: Seteuid_def uid_t_def valid_uid_def split: option.splits if_splits)

lemma SSHTUN_Become_Inr:
  "SSHTUN_Become answer uid w = (Inr b, w') \<Longrightarrow>
   ran w' = ran w \<and> originalUID b = euid w \<and> becameUID b = euid w' \<and>
   (euid w = uid \<longrightarrow> w' = w) \<and> (valid_uid uid \<longrightarrow> euid w' = uid)"
  by (auto simp: SSHTUN_Become_def Geteuid_def Let_def split: if_splits option.splits prod.splits
      dest!: Seteuid_result)

lemma SSHTUN_Become_Inl:
  "SSHTUN_Become answer uid w = (Inl err, w') \<Longrightarrow>
   w' = w \<and> euid w \<noteq> uid \<and>
   (\<exists>errno. answer = Some errno \<and> err = Errorf (Become_errmsg @ '': %w'') [Foreign errno])"
  by (auto simp: SSHTUN_Become_def Geteuid_def Let_def split: if_splits option.splits prod.splits
      dest!: Seteuid_result)

lemma Unbecome_Inr:
  "Unbecome answer b w = (Inr b', w') \<Longrightarrow>
   ran w' = ran w \<and> originalUID b' = originalUID b \<and>
   (euid w = originalUID b \<longrightarrow> w' = w) \<and> (valid_uid (originalUID b) \<longrightarrow> euid w' = originalUID b)"
  by (auto simp: Unbecome_def Geteuid_def split: if_splits option.splits prod.splits
      dest!: Seteuid_result)

lemma Unbecome_Inl:
  "Unbecome answer b w = (Inl err, w') \<Longrightarrow>
   w' = w \<and> euid w \<noteq> originalUID b \<and> (\<exists>errno. answer = Some errno \<and> err = Foreign errno)"
  by (auto simp: Unbecome_def Geteuid_def split: if_splits option.splits prod.splits
      dest!: Seteuid_result)

lemma Became_Become_Inr:
  "Became_Become answer b uid w = (Inr b', w') \<Longrightarrow>
   ran w' = ran w \<and> originalUID b' = originalUID b \<and> (valid_uid uid \<longrightarrow> euid w' = uid)"
  by (auto simp: Became_Become_def split: prod.splits sum.splits dest: SSHTUN_Become_Inr)

lemma Became_Become_Inl:
  "Became_Become answer b uid w = (Inl err, w') \<Longrightarrow>
   w' = w \<and> euid w \<noteq> uid \<and>
   (\<exists>errno. answer = Some errno \<and> err = Errorf (Become_errmsg @ '': %w'') [Foreign errno])"
  by (auto simp: Became_Become_def split: prod.splits sum.splits dest: SSHTUN_Become_Inl)

lemma UploadHelperToRemote_euid:
  "UploadHelperToRemote a s d w = (r, s', w') \<Longrightarrow> euid w' = euid w"
  by (auto simp: UploadHelperToRemote_def Let_def split: option.splits)

lemma StartTunneling_euid:
  "StartTunneling a s w = (r, w') \<Longrightarrow> euid w' = euid w"
  by (auto simp: StartTunneling_def Let_def split: option.splits if_splits)

lemma others_euid_cong: "euid w = euid w' \<Longrightarrow> euid (others change w) = euid (others change w')"
  by (simp add: others_def split: option.split)

lemma Open_success_euid:
  "valid_uid (euid (others (op_mutex_Lock a) w)) \<Longrightarrow> returned (Open a s w) = None \<longrightarrow>
   euid (outside (Open a s w)) =
     euid (others (op_StartTunneling_others a) (others (op_mutex_Lock a) w))"
  apply (simp add: Open_def Let_def split: prod.split sum.split option.split)
  apply (intro allI impI conjI)
   apply (elim exE conjE)
   apply (rule others_euid_cong)
   apply (drule SSHTUN_Become_Inr Unbecome_Inr Became_Become_Inr UploadHelperToRemote_euid
      StartTunneling_euid)+
   apply (simp add: valid_uid_ROOT)
  apply (elim exE conjE)
  apply (rule others_euid_cong)
  apply (drule SSHTUN_Become_Inr Unbecome_Inr Became_Become_Inr UploadHelperToRemote_euid
      StartTunneling_euid)+
  apply (simp add: valid_uid_ROOT)
  done

text \<open>
  Claim C1, as stated, in a process with two tunnels. Every call is granted, and the other
  tunnel is in the locked part of its own call of \<^verbatim>\<open>Open\<close> when the tunnel of this call
  closes: \<^verbatim>\<open>Open\<close> is called with the effective UID 1000 and returns nil with the effective
  UID 0.
\<close>

theorem Open_returns_with_euid_of_other_tunnel:
  "returned (Open other_tunnel_opening var_tmp_tunnel user_world) = None \<and>
   euid user_world = 1000 \<and>
   euid (outside (Open other_tunnel_opening var_tmp_tunnel user_world)) = 0"
  by (simp add: Open_other_tunnel_opening) (simp add: user_world_def)

text \<open>
  Claim C1, amended. When a call of \<^verbatim>\<open>Open\<close> returns nil, the effective UID is the one
  that the process had when \<^verbatim>\<open>Open\<close> got the mutex, unless another tunnel has changed it
  after \<^verbatim>\<open>Open\<close> released the mutex; so a call of \<^verbatim>\<open>Open\<close> during which no other tunnel
  changes the effective UID leaves it as it found it. More precisely: a successful
  \<^verbatim>\<open>Become(uid)\<close> records the effective UID of the moment as the original one, and leaves
  the process with the effective UID \<open>uid\<close> when \<open>uid\<close> is a UID that a process can have;
  it makes no system call, and so changes nothing, when the process has that UID already; a
  successful \<^verbatim>\<open>Unbecome\<close> leaves the process with the recorded original UID, and makes no
  system call when the process has it already; so a successful \<^verbatim>\<open>Become\<close> followed by a
  successful \<^verbatim>\<open>Unbecome\<close> of its guard restores the effective UID, whatever \<open>uid\<close> was.
\<close>

theorem privilege_bracket:
  "(returned (Open a s w) = None \<and> valid_uid (euid (others (op_mutex_Lock a) w)) \<longrightarrow>
      euid (outside (Open a s w)) =
        euid (others (op_StartTunneling_others a) (others (op_mutex_Lock a) w))) \<and>
   (returned (Open a s w) = None \<and> valid_uid (euid w) \<and> op_mutex_Lock a = None \<and>
    op_StartTunneling_others a = None \<longrightarrow>
      euid (outside (Open a s w)) = euid w) \<and>
   (SSHTUN_Become answer1 uid w = (Inr b, w1) \<longrightarrow>
      originalUID b = euid w \<and> becameUID b = euid w1 \<and> (valid_uid uid \<longrightarrow> euid w1 = uid) \<and>
      (valid_uid (euid w) \<and> Unbecome answer2 b w1 = (Inr b', w2) \<longrightarrow> euid w2 = euid w)) \<and>
   (euid w = uid \<longrightarrow>
      SSHTUN_Become answer1 uid w = (Inr \<lparr>originalUID = uid, becameUID = uid\<rparr>, w)) \<and>
   (euid w \<noteq> uid \<and> valid_uid uid \<longrightarrow>
      SSHTUN_Become None uid w =
        (Inr \<lparr>originalUID = euid w, becameUID = uid\<rparr>, w\<lparr>euid := uid\<rparr>)) \<and>
   (euid w = originalUID g \<longrightarrow> Unbecome answer2 g w = (Inr (g\<lparr>becameUID := euid w\<rparr>), w)) \<and>
   (euid w \<noteq> originalUID g \<and> valid_uid (originalUID g) \<longrightarrow>
      Unbecome None g w = (Inr (g\<lparr>becameUID := originalUID g\<rparr>), w\<lparr>euid := originalUID g\<rparr>))"
proof -
  have f1: "euid (outside (Open a s w)) =
        euid (others (op_StartTunneling_others a) (others (op_mutex_Lock a) w))"
    if "returned (Open a s w) = None \<and> valid_uid (euid (others (op_mutex_Lock a) w))"
    using that Open_success_euid [of a w s] by simp
  have f2: "euid (outside (Open a s w)) = euid w"
    if "returned (Open a s w) = None \<and> valid_uid (euid w) \<and> op_mutex_Lock a = None \<and>
      op_StartTunneling_others a = None"
    using that Open_success_euid [of a w s] by (simp add: others_def)
  have f3: "originalUID b = euid w \<and> becameUID b = euid w1 \<and> (valid_uid uid \<longrightarrow> euid w1 = uid) \<and>
      (valid_uid (euid w) \<and> Unbecome answer2 b w1 = (Inr b', w2) \<longrightarrow> euid w2 = euid w)"
    if "SSHTUN_Become answer1 uid w = (Inr b, w1)"
    using SSHTUN_Become_Inr [OF that] Unbecome_Inr [of answer2 b w1 b' w2] by simp
  have f4: "SSHTUN_Become answer1 uid w = (Inr \<lparr>originalUID = uid, becameUID = uid\<rparr>, w)"
    if "euid w = uid"
    using that by (simp add: SSHTUN_Become_def Geteuid_def)
  have f5: "SSHTUN_Become None uid w =
        (Inr \<lparr>originalUID = euid w, becameUID = uid\<rparr>, w\<lparr>euid := uid\<rparr>)"
    if "euid w \<noteq> uid \<and> valid_uid uid"
    using that by (simp add: SSHTUN_Become_def Geteuid_def Seteuid_granted)
  have f6: "Unbecome answer2 g w = (Inr (g\<lparr>becameUID := euid w\<rparr>), w)"
    if "euid w = originalUID g"
    using that by (simp add: Unbecome_def Geteuid_def)
  have f7: "Unbecome None g w =
      (Inr (g\<lparr>becameUID := originalUID g\<rparr>), w\<lparr>euid := originalUID g\<rparr>)"
    if "euid w \<noteq> originalUID g \<and> valid_uid (originalUID g)"
    using that by (simp add: Unbecome_def Geteuid_def Seteuid_granted)
  show ?thesis
    by (intro conjI; rule impI; (erule f1 | erule f2 | erule f3 | erule f4 | erule f5 | erule f6 | erule f7))
qed

theorem privilege_bracket_witness:
  "returned (Open granted var_tmp_tunnel user_world) = None \<and>
   euid (outside (Open granted var_tmp_tunnel user_world)) = 1000 \<and>
   euid user_world = 1000 \<and> valid_uid 1000 \<and> valid_uid 0 \<and>
   op_mutex_Lock granted = None \<and> op_StartTunneling_others granted = None \<and>
   SSHTUN_Become None 0 user_world =
     (Inr \<lparr>originalUID = 1000, becameUID = 0\<rparr>, \<lparr>euid = 0, ran = []\<rparr>) \<and>
   Unbecome None \<lparr>originalUID = 1000, becameUID = 0\<rparr> \<lparr>euid = 0, ran = []\<rparr> =
     (Inr \<lparr>originalUID = 1000, becameUID = 1000\<rparr>, \<lparr>euid = 1000, ran = []\<rparr>)"
proof -
  have r: "returned (Open granted var_tmp_tunnel user_world) = None"
    by (simp add: Open_granted)
  have e: "euid user_world = 1000" by (simp add: user_world_def)
  have v: "valid_uid 1000" "valid_uid 0" by (simp_all add: valid_uid_def)
  have o: "op_mutex_Lock granted = None" "op_StartTunneling_others granted = None"
    by (simp_all add: granted_def)
  have n: "euid user_world \<noteq> 0" by (simp add: user_world_def)
  have n': "euid \<lparr>euid = 0, ran = []\<rparr> \<noteq> originalUID \<lparr>originalUID = 1000, becameUID = 0\<rparr>"
    by simp
  from privilege_bracket [where a = granted and s = var_tmp_tunnel and w = user_world,
      THEN conjunct2, THEN conjunct1] r e v o
  have "euid (outside (Open granted var_tmp_tunnel user_world)) = 1000" by simp
  moreover from privilege_bracket [where w = user_world and uid = 0, THEN conjunct2,
      THEN conjunct2, THEN conjunct2, THEN conjunct2, THEN conjunct1] n v
  have "SSHTUN_Become None 0 user_world =
     (Inr \<lparr>originalUID = 1000, becameUID = 0\<rparr>, \<lparr>euid = 0, ran = []\<rparr>)"
    by (simp add: user_world_def)
  moreover from privilege_bracket [where w = "\<lparr>euid = 0, ran = []\<rparr>"
      and g = "\<lparr>originalUID = 1000, becameUID = 0\<rparr>", THEN conjunct2,
      THEN conjunct2, THEN conjunct2, THEN conjunct2, THEN conjunct2, THEN conjunct2] n' v
  have "Unbecome None \<lparr>originalUID = 1000, becameUID = 0\<rparr> \<lparr>euid = 0, ran = []\<rparr> =
     (Inr \<lparr>originalUID = 1000, becameUID = 1000\<rparr>, \<lparr>euid = 1000, ran = []\<rparr>)"
    by simp
  ultimately show ?thesis using r e v o by simp
qed

subsection \<open>Error propagation in \<^verbatim>\<open>Open\<close>\<close>

lemma Dial_key_files_error:
  "Dial_key_files answer signers pks = Inl err \<Longrightarrow> \<exists>e. err = Foreign e"
  by (induction pks arbitrary: signers) (auto split: key_file_answer.splits)

lemma Dial_error:
  "Dial a s = Inl err \<Longrightarrow> err = ErrEmptySshAuthSock \<or> (\<exists>e. err = Foreign e)"
  by (auto simp: Dial_def split: if_splits option.splits sum.splits dest: Dial_key_files_error)

lemma Dial_not_unrecoverable: "Dial a s = Inl err \<Longrightarrow> \<not> errors_Is err ErrUnrecoverable"
  by (auto dest: Dial_error)

lemma UploadHelperToRemote_error:
  "UploadHelperToRemote a s d w = (Some err, s', w') \<Longrightarrow>
   s' = s \<and> fst (UploadHelperToRemote a s d w) = Some err \<and>
   ((\<exists>e. err = Foreign e) \<or> (\<exists>e. err = Errorf ''%w: %s'' [Foreign e]))"
  by (auto simp: UploadHelperToRemote_def Let_def split: option.splits)

lemma UploadHelperToRemote_not_unrecoverable:
  "UploadHelperToRemote a s d w = (Some err, s', w') \<Longrightarrow> \<not> errors_Is err ErrUnrecoverable"
  by (auto dest: UploadHelperToRemote_error)

text \<open>
  Claim C2. In a call of \<^verbatim>\<open>Open\<close> with a context made by \<^verbatim>\<open>Context\<close>: when one of the
  privilege, device or local configuration steps fails (the first or the second
  \<^verbatim>\<open>Become(ROOT)\<close>, \<^verbatim>\<open>tun.CreateTUN\<close>, \<^verbatim>\<open>ConfigureInterface\<close>, \<^verbatim>\<open>LinkUp\<close>, the first or
  the second \<^verbatim>\<open>Unbecome\<close>) after the steps before it have succeeded, \<^verbatim>\<open>Open\<close> returns
  the failure of that step wrapped by \<^verbatim>\<open>unrecoverable\<close>, and \<^verbatim>\<open>ErrUnrecoverable\<close> is in
  the chain of the returned error. When the SSH dial or the upload of the helper fails,
  \<^verbatim>\<open>Open\<close> returns the error of \<^verbatim>\<open>Dial\<close> or of \<^verbatim>\<open>UploadHelperToRemote\<close> as it is, and
  \<^verbatim>\<open>ErrUnrecoverable\<close> is not in its chain. The steps are named by their calls, in the
  order of the code: \<open>w0\<close> is the world when \<^verbatim>\<open>Open\<close> has the mutex, \<open>s1\<close> the tunnel with
  the name of the device that the kernel gave.
\<close>

theorem Open_unrecoverable_wrapping:
  assumes "op_ctx_Value a"
    and "w0 = others (op_mutex_Lock a) w"
    and "s1 = s\<lparr>LocalTunDevice := tun_Name localTUN\<rparr>"
  shows
    "(SSHTUN_Become (op_Seteuid_1 a) ROOT w0 = (Inl cause, w1) \<longrightarrow>
        returned (Open a s w) = Some (unrecoverable cause) \<and>
        errors_Is (unrecoverable cause) ErrUnrecoverable) \<and>
     (SSHTUN_Become (op_Seteuid_1 a) ROOT w0 = (Inr b, w1) \<longrightarrow>
     (CreateTUN (op_CreateTUN a) (LocalTunDevice s) (LocalMTU s) 0 0 = Inl cause \<longrightarrow>
        returned (Open a s w) = Some (unrecoverable cause) \<and>
        errors_Is (unrecoverable cause) ErrUnrecoverable) \<and>
     (CreateTUN (op_CreateTUN a) (LocalTunDevice s) (LocalMTU s) 0 0 = Inr localTUN \<longrightarrow>
     (ConfigureInterface (op_ConfigureInterface a) (LocalNetwork s1) = Inl cause \<longrightarrow>
        returned (Open a s w) = Some (unrecoverable cause) \<and>
        errors_Is (unrecoverable cause) ErrUnrecoverable) \<and>
     (ConfigureInterface (op_ConfigureInterface a) (LocalNetwork s1) = Inr configured \<longrightarrow>
     (Unbecome (op_Seteuid_2 a) b w1 = (Inl cause, w2) \<longrightarrow>
        returned (Open a s w) = Some (unrecoverable cause) \<and>
        errors_Is (unrecoverable cause) ErrUnrecoverable) \<and>
     (Unbecome (op_Seteuid_2 a) b w1 = (Inr b2, w2) \<longrightarrow>
     (Dial (op_Dial a) s1 = Inl err \<longrightarrow>
        returned (Open a s w) = Some err \<and> \<not> errors_Is err ErrUnrecoverable) \<and>
     (Dial (op_Dial a) s1 = Inr client \<longrightarrow>
     (UploadHelperToRemote (op_Upload a) s1 [] w2 = (Some err, s2, w3) \<longrightarrow>
        returned (Open a s w) = Some err \<and> \<not> errors_Is err ErrUnrecoverable) \<and>
     (UploadHelperToRemote (op_Upload a) s1 [] w2 = (None, s2, w3) \<longrightarrow>
     (Became_Become (op_Seteuid_3 a) b2 ROOT w3 = (Inl cause, w4) \<longrightarrow>
        returned (Open a s w) = Some (unrecoverable cause) \<and>
        errors_Is (unrecoverable cause) ErrUnrecoverable) \<and>
     (Became_Become (op_Seteuid_3 a) b2 ROOT w3 = (Inr b3, w4) \<longrightarrow>
     (LinkUp (op_LinkUp a) = Inl cause \<longrightarrow>
        returned (Open a s w) = Some (unrecoverable cause) \<and>
        errors_Is (unrecoverable cause) ErrUnrecoverable) \<and>
     (LinkUp (op_LinkUp a) = Inr flags \<longrightarrow>
     (Unbecome (op_Seteuid_4 a) b3 w4 = (Inl cause, w5) \<longrightarrow>
        returned (Open a s w) = Some (unrecoverable cause) \<and>
        errors_Is (unrecoverable cause) ErrUnrecoverable)))))))))"
proof -
  have u: "errors_Is (unrecoverable cause) ErrUnrecoverable"
    by (rule errors_Is_unrecoverable)
  have d: "\<not> errors_Is err ErrUnrecoverable" if "Dial (op_Dial a) s1 = Inl err"
    using that by (rule Dial_not_unrecoverable)
  have up: "\<not> errors_Is err ErrUnrecoverable"
    if "UploadHelperToRemote (op_Upload a) s1 [] w2 = (Some err, s2, w3)"
    using that by (rule UploadHelperToRemote_not_unrecoverable)
  show ?thesis
    using assms(1) u d up unfolding assms(2,3)
    by (simp add: Open_def Let_def)
qed

theorem Open_unrecoverable_wrapping_witness:
  "returned (Open seteuid_refused var_tmp_tunnel user_world) =
     Some (unrecoverable (Errorf (Become_errmsg @ '': %w'') [Foreign ''operation not permitted''])) \<and>
   errors_Is (unrecoverable (Errorf (Become_errmsg @ '': %w'') [Foreign ''operation not permitted'']))
     ErrUnrecoverable \<and>
   returned (Open granted invalid_cidr_tunnel user_world) =
     Some (unrecoverable (ParseError ''CIDR address'' ''192.168.99.256/29'')) \<and>
   errors_Is (unrecoverable (ParseError ''CIDR address'' ''192.168.99.256/29'')) ErrUnrecoverable \<and>
   returned (Open dial_refused var_tmp_tunnel user_world) = Some (Foreign ''connection refused'') \<and>
   \<not> errors_Is (Foreign ''connection refused'') ErrUnrecoverable \<and>
   returned (Open link_refused var_tmp_tunnel user_world) =
     Some (unrecoverable (Errorf ''ioctl SIOCSIFFLAGS: %w'' [Foreign ''operation not permitted''])) \<and>
   errors_Is (unrecoverable (Errorf ''ioctl SIOCSIFFLAGS: %w'' [Foreign ''operation not permitted'']))
     ErrUnrecoverable"
proof -
  let ?root = "\<lparr>euid = 0, ran = []\<rparr>"
  let ?b = "\<lparr>originalUID = 1000, becameUID = 0\<rparr>"
  let ?b2 = "\<lparr>originalUID = 1000, becameUID = 1000\<rparr>"
  let ?tun = "\<lparr>tun_Name = ''tun1'', tun_Fd = 3\<rparr>"
  let ?cfg = "([172, 19, 0, 1], [255, 255, 255, 0])"
  let ?client = "\<lparr>client_User = ''abc123'', client_signers = [''~/.ssh/id_rsa''],
    client_addr = ''anothermachine:22''\<rparr>"
  let ?s2 = "readme_tunnel\<lparr>RemoteUploadDirectory := ''/var/tmp''\<rparr>"
  let ?w3 = "\<lparr>euid = 1000, ran = [''/usr/bin/scp -t /tmp'']\<rparr>"
  let ?w4 = "\<lparr>euid = 0, ran = [''/usr/bin/scp -t /tmp'']\<rparr>"
  have c: "op_ctx_Value seteuid_refused" "op_ctx_Value granted" "op_ctx_Value dial_refused"
    "op_ctx_Value link_refused"
    by (simp_all add: seteuid_refused_def dial_refused_def link_refused_def granted_def)
  from Open_unrecoverable_wrapping [where a = seteuid_refused and s = var_tmp_tunnel
      and w = user_world and ?w1.0 = user_world
      and cause = "Errorf (Become_errmsg @ '': %w'') [Foreign ''operation not permitted'']",
      OF c(1) refl refl, THEN conjunct1]
  have 1: "returned (Open seteuid_refused var_tmp_tunnel user_world) =
     Some (unrecoverable (Errorf (Become_errmsg @ '': %w'') [Foreign ''operation not permitted''])) \<and>
   errors_Is (unrecoverable (Errorf (Become_errmsg @ '': %w'') [Foreign ''operation not permitted'']))
     ErrUnrecoverable"
    by (simp add: seteuid_refused_def example_defs gate_defs)
  from Open_unrecoverable_wrapping [where a = granted and s = invalid_cidr_tunnel
      and w = user_world and ?w1.0 = ?root and b = ?b and localTUN = ?tun
      and cause = "ParseError ''CIDR address'' ''192.168.99.256/29''",
      OF c(2) refl refl, THEN conjunct2]
  have 2: "returned (Open granted invalid_cidr_tunnel user_world) =
     Some (unrecoverable (ParseError ''CIDR address'' ''192.168.99.256/29'')) \<and>
   errors_Is (unrecoverable (ParseError ''CIDR address'' ''192.168.99.256/29'')) ErrUnrecoverable"
    by (simp add: invalid_cidr_tunnel_def example_defs gate_defs step_defs cidr_defs)
  from Open_unrecoverable_wrapping [where a = dial_refused and s = var_tmp_tunnel
      and w = user_world and ?w1.0 = ?root and b = ?b and localTUN = ?tun and configured = ?cfg
      and ?b2.0 = ?b2 and ?w2.0 = user_world and err = "Foreign ''connection refused''",
      OF c(3) refl refl, THEN conjunct2]
  have 3: "returned (Open dial_refused var_tmp_tunnel user_world) = Some (Foreign ''connection refused'') \<and>
   \<not> errors_Is (Foreign ''connection refused'') ErrUnrecoverable"
    by (simp add: dial_refused_def example_defs gate_defs step_defs cidr_defs CIDRMask_loop_4)
  from Open_unrecoverable_wrapping [where a = link_refused and s = var_tmp_tunnel
      and w = user_world and ?w1.0 = ?root and b = ?b and localTUN = ?tun and configured = ?cfg
      and ?b2.0 = ?b2 and ?w2.0 = user_world and client = ?client and ?s2.0 = ?s2 and ?w3.0 = ?w3
      and ?b3.0 = ?b and ?w4.0 = ?w4
      and cause = "Errorf ''ioctl SIOCSIFFLAGS: %w'' [Foreign ''operation not permitted'']",
      OF c(4) refl refl, THEN conjunct2]
  have 4: "returned (Open link_refused var_tmp_tunnel user_world) =
     Some (unrecoverable (Errorf ''ioctl SIOCSIFFLAGS: %w'' [Foreign ''operation not permitted''])) \<and>
   errors_Is (unrecoverable (Errorf ''ioctl SIOCSIFFLAGS: %w'' [Foreign ''operation not permitted'']))
     ErrUnrecoverable"
    by (simp add: link_refused_def example_defs gate_defs step_defs cidr_defs CIDRMask_loop_4
        path_defs Let_def)
  from 1 2 3 4 show ?thesis by simp
qed

subsection \<open>The directory of the upload\<close>

lemma command_ignores_directory:
  "remoteTunReadWriterCommand (s\<lparr>RemoteUploadDirectory := d\<rparr>) = remoteTunReadWriterCommand s"
  by (simp add: remoteTunReadWriterCommand_def)

lemma Dial_ignores_directory: "Dial a (s\<lparr>RemoteUploadDirectory := d\<rparr>) = Dial a s"
  by (simp add: Dial_def cong: option.case_cong sum.case_cong)

lemma UploadHelperToRemote_ignores_directory:
  "UploadHelperToRemote a (s\<lparr>RemoteUploadDirectory := d\<rparr>) dir w =
     (case UploadHelperToRemote a s dir w of
        (r, s', w') \<Rightarrow> (r, s'\<lparr>RemoteUploadDirectory := d\<rparr>, w'))"
  by (simp add: UploadHelperToRemote_def Let_def split: option.split)

lemma StartTunneling_ignores_directory:
  "StartTunneling a (s\<lparr>RemoteUploadDirectory := d\<rparr>) w = StartTunneling a s w"
  by (simp add: StartTunneling_def command_ignores_directory cong: option.case_cong)


lemma directory_update_swap:
  "s\<lparr>RemoteUploadDirectory := d, LocalTunDevice := n\<rparr> =
   s\<lparr>LocalTunDevice := n, RemoteUploadDirectory := d\<rparr>"
  by simp

text \<open>
  The remote upload directory of the configuration has no influence on what \<^verbatim>\<open>Open\<close>
  returns, on where it returns, or on the outside: \<^verbatim>\<open>Open\<close> only carries the field along.
\<close>

lemma Open_ignores_directory:
  "Open a (s\<lparr>RemoteUploadDirectory := d\<rparr>) w =
     (Open a s w)\<lparr>tunnel := (tunnel (Open a s w))\<lparr>RemoteUploadDirectory := d\<rparr>\<rparr>"
proof -
  note ignore = directory_update_swap Dial_ignores_directory
    UploadHelperToRemote_ignores_directory StartTunneling_ignores_directory
  show ?thesis
  proof (cases "op_ctx_Value a")
    case False
    then show ?thesis by (simp add: Open_def)
  next
    case ctx: True
    obtain rB1 w1 where B1: "SSHTUN_Become (op_Seteuid_1 a) ROOT (others (op_mutex_Lock a) w) = (rB1, w1)"
      by (cases "SSHTUN_Become (op_Seteuid_1 a) ROOT (others (op_mutex_Lock a) w)") auto
    show ?thesis
    proof (cases rB1)
      case (Inl err)
      with ctx B1 show ?thesis by (simp add: Open_def Let_def ignore)
    next
      case (Inr b1)
      note B1' = B1 [unfolded Inr]
      show ?thesis
      proof (cases "CreateTUN (op_CreateTUN a) (LocalTunDevice s) (LocalMTU s) 0 0")
        case (Inl err)
        with ctx B1' show ?thesis by (simp add: Open_def Let_def ignore)
      next
        case (Inr localTUN)
        note CT = Inr
        show ?thesis
        proof (cases "ConfigureInterface (op_ConfigureInterface a) (LocalNetwork s)")
          case (Inl err)
          with ctx B1' CT show ?thesis by (simp add: Open_def Let_def ignore)
        next
          case (Inr configured)
          note CI = Inr
          obtain rU1 w2 where U1: "Unbecome (op_Seteuid_2 a) b1 w1 = (rU1, w2)"
            by (cases "Unbecome (op_Seteuid_2 a) b1 w1") auto
          show ?thesis
          proof (cases rU1)
            case (Inl err)
            with ctx B1' CT CI U1 show ?thesis by (simp add: Open_def Let_def ignore)
          next
            case (Inr b2)
            note U1' = U1 [unfolded Inr]
            show ?thesis
            proof (cases "Dial (op_Dial a) (s\<lparr>LocalTunDevice := tun_Name localTUN\<rparr>)")
              case (Inl err)
              with ctx B1' CT CI U1' show ?thesis by (simp add: Open_def Let_def ignore)
            next
              case (Inr client)
              note DL = Inr
              obtain rUP s2 w3 where UP: "UploadHelperToRemote (op_Upload a) (s\<lparr>LocalTunDevice := tun_Name localTUN\<rparr>) [] w2 = (rUP, s2, w3)"
                by (cases "UploadHelperToRemote (op_Upload a) (s\<lparr>LocalTunDevice := tun_Name localTUN\<rparr>) [] w2") auto
              show ?thesis
              proof (cases rUP)
                case (Some err)
                with ctx B1' CT CI U1' DL UP show ?thesis by (simp add: Open_def Let_def ignore)
              next
                case None
                note UP' = UP [unfolded None]
                obtain rB2 w4 where B2: "Became_Become (op_Seteuid_3 a) b2 ROOT w3 = (rB2, w4)"
                  by (cases "Became_Become (op_Seteuid_3 a) b2 ROOT w3") auto
                show ?thesis
                proof (cases rB2)
                  case (Inl err)
                  with ctx B1' CT CI U1' DL UP' B2 show ?thesis by (simp add: Open_def Let_def ignore)
                next
                  case (Inr b3)
                  note B2' = B2 [unfolded Inr]
                  show ?thesis
                  proof (cases "LinkUp (op_LinkUp a)")
                    case (Inl err)
                    with ctx B1' CT CI U1' DL UP' B2' show ?thesis by (simp add: Open_def Let_def ignore)
                  next
                    case (Inr flags)
                    note LU = Inr
                    obtain rU2 w5 where U2: "Unbecome (op_Seteuid_4 a) b3 w4 = (rU2, w5)"
                      by (cases "Unbecome (op_Seteuid_4 a) b3 w4") auto
                    show ?thesis
                    proof (cases rU2)
                      case (Inl err)
                      with ctx B1' CT CI U1' DL UP' B2' LU U2 show ?thesis by (simp add: Open_def Let_def ignore)
                    next
                      case (Inr b4)
                      note U2' = U2 [unfolded Inr]
                      obtain r6 w6 where ST: "StartTunneling (op_Tunneling a) s2 w5 = (r6, w6)"
                        by (cases "StartTunneling (op_Tunneling a) s2 w5") auto
                      show ?thesis
                        using ctx B1' CT CI U1' DL UP' B2' LU U2' ST by (cases r6) (simp_all add: Open_def Let_def ignore)
                    qed
                  qed
                qed
              qed
            qed
          qed
        qed
      qed
    qed
  qed
qed

text \<open>
  Claim C5. \<^verbatim>\<open>Open\<close> does not use the remote upload directory of the configuration: with
  any directory \<open>d\<close> in that field, \<^verbatim>\<open>Open\<close> returns the same result at the same place
  and leaves the same outside, the commands run on the remote host included. At a
  configuration whose remote upload directory is \<^verbatim>\<open>/var/tmp\<close>, with every call granted,
  \<^verbatim>\<open>Open\<close> starts the remote copy program in the directory \<^verbatim>\<open>/tmp\<close> and records a helper
  path in \<^verbatim>\<open>/tmp\<close>.
\<close>

theorem Open_uploads_to_tmp:
  "Open a (s\<lparr>RemoteUploadDirectory := d\<rparr>) w =
     (Open a s w)\<lparr>tunnel := (tunnel (Open a s w))\<lparr>RemoteUploadDirectory := d\<rparr>\<rparr> \<and>
   RemoteUploadDirectory var_tmp_tunnel = ''/var/tmp'' \<and>
   returned (Open granted var_tmp_tunnel user_world) = None \<and>
   hd (ran (outside (Open granted var_tmp_tunnel user_world))) = ''/usr/bin/scp -t /tmp'' \<and>
   remoteTunReadWriter (tunnel (Open granted var_tmp_tunnel user_world)) =
     ''/tmp/tunreadwriter-20231012T225150-8296832003517942891''"
proof -
  have "RemoteUploadDirectory var_tmp_tunnel = ''/var/tmp''"
    by (simp add: var_tmp_tunnel_def)
  moreover have "remoteTunReadWriter (tunnel (Open granted var_tmp_tunnel user_world)) =
     ''/tmp/tunreadwriter-20231012T225150-8296832003517942891''"
    by (simp add: Open_granted) (simp add: readme_tunnel_def)
  ultimately show ?thesis
    using Open_ignores_directory [where a = a and s = s and d = d and w = w]
    by (simp add: Open_granted)
qed

subsection \<open>The pipes of \<^verbatim>\<open>StartTunneling\<close>\<close>

text \<open>
  Claim C10. In \<^verbatim>\<open>StartTunneling\<close>, with a helper path recorded and the session opened, a
  failure to obtain the pipe to the standard input makes the function return nil, with
  nothing started on the remote host; a failure to obtain the pipe from the standard output
  or from the standard error makes it return that error.
\<close>

theorem StartTunneling_pipe_errors:
  assumes "remoteTunReadWriter s \<noteq> []" and "tn_NewSession a = None"
  shows
    "(tn_StdinPipe a = Some e \<longrightarrow> StartTunneling a s w = (None, w)) \<and>
     (tn_StdinPipe a = None \<and> tn_StdoutPipe a = Some e \<longrightarrow>
        StartTunneling a s w = (Some (Foreign e), w)) \<and>
     (tn_StdinPipe a = None \<and> tn_StdoutPipe a = None \<and> tn_StderrPipe a = Some e \<longrightarrow>
        StartTunneling a s w = (Some (Foreign e), w))"
  using assms by (simp add: StartTunneling_def)

theorem StartTunneling_pipe_errors_witness:
  "StartTunneling no_stdin readme_tunnel user_world = (None, user_world) \<and>
   StartTunneling no_stdout readme_tunnel user_world =
     (Some (Foreign ''ssh: Stdout already set''), user_world) \<and>
   StartTunneling no_stderr readme_tunnel user_world =
     (Some (Foreign ''ssh: Stderr already set''), user_world)"
proof -
  have h: "remoteTunReadWriter readme_tunnel \<noteq> []"
    by (simp add: readme_tunnel_def)
  have n: "tn_NewSession no_stdin = None" "tn_NewSession no_stdout = None"
    "tn_NewSession no_stderr = None"
    by (simp_all add: no_stdin_def no_stdout_def no_stderr_def granted_def)
  from StartTunneling_pipe_errors [OF h n(1), of "''ssh: Stdin already set''" user_world]
  have "StartTunneling no_stdin readme_tunnel user_world = (None, user_world)"
    by (simp add: no_stdin_def)
  moreover
  from StartTunneling_pipe_errors [OF h n(2), of "''ssh: Stdout already set''" user_world]
  have "StartTunneling no_stdout readme_tunnel user_world =
     (Some (Foreign ''ssh: Stdout already set''), user_world)"
    by (simp add: no_stdout_def granted_def)
  moreover
  from StartTunneling_pipe_errors [OF h n(3), of "''ssh: Stderr already set''" user_world]
  have "StartTunneling no_stderr readme_tunnel user_world =
     (Some (Foreign ''ssh: Stderr already set''), user_world)"
    by (simp add: no_stderr_def granted_def)
  ultimately show ?thesis by simp
qed

subsection \<open>The remote command line\<close>

lemma minus_and_digits_shell_safe: "\<forall>c \<in> set ''-0123456789''. shell_safe c"
  by (simp add: shell_safe_def)

lemma Quote_Nil: "Quote [] = [squote, squote]"
  by (simp add: Quote_def)

lemma Quote_safe: "f \<noteq> [] \<Longrightarrow> \<forall>c \<in> set f. shell_safe c \<Longrightarrow> Quote f = f"
  by (simp add: Quote_def)

lemma Quote_unsafe:
  "\<exists>c \<in> set f. \<not> shell_safe c \<Longrightarrow>
   Quote f = [squote]
     @ concat (map (\<lambda>c. if c = squote then [squote, dquote, squote, dquote, squote] else [c]) f)
     @ [squote]"
  by (auto simp: Quote_def)

lemma concat_map_singleton: "concat (map (\<lambda>c. [c]) f) = f"
  by (induction f) auto

lemma Quote_unsafe_plain:
  assumes "\<exists>c \<in> set f. \<not> shell_safe c" and "squote \<notin> set f"
  shows "Quote f = [squote] @ f @ [squote]"
proof -
  have "map (\<lambda>c. if c = squote then [squote, dquote, squote, dquote, squote] else [c]) f =
      map (\<lambda>c. [c]) f"
    using assms(2) by (intro map_cong) auto
  then have "concat (map (\<lambda>c. if c = squote then [squote, dquote, squote, dquote, squote] else [c]) f) = f"
    by (simp only: concat_map_singleton)
  then show ?thesis
    using Quote_unsafe [OF assms(1)] by simp
qed

lemma Quote_Itoa: "Quote (Itoa i) = Itoa i"
proof (rule Quote_safe)
  show "Itoa i \<noteq> []" by (rule Itoa_not_Nil)
  show "\<forall>c \<in> set (Itoa i). shell_safe c"
    using Itoa_chars [of i] minus_and_digits_shell_safe by blast
qed

lemma StartTunneling_started:
  assumes "remoteTunReadWriter s \<noteq> []" and "tn_NewSession a = None" and "tn_StdinPipe a = None"
    and "tn_StdoutPipe a = None" and "tn_StderrPipe a = None"
  shows "ran (snd (StartTunneling a s w)) = ran w @ [remoteTunReadWriterCommand s]"
  using assms by (simp add: StartTunneling_def Let_def split: option.split)

lemma readme_command:
  "remoteTunReadWriterCommand readme_tunnel =
   ''sudo /tmp/tunreadwriter-20231012T225150-8296832003517942891 -delete -dev tun1 -net 172.19.0.2/24 -mtu 0''"
  by (simp add: remoteTunReadWriterCommand_def readme_tunnel_def quote_defs Itoa_def utoa.simps
      digit_char_def)

text \<open>
  Claim C8, as stated, at the tunnel of the README: the command line that \<^verbatim>\<open>StartTunneling\<close>
  builds is the one that the log of the README shows. No single quote is in it, and it is
  not the command line with each of the four fields between single quotes.
\<close>

theorem remote_command_not_single_quoted:
  "remoteTunReadWriter readme_tunnel \<noteq> [] \<and>
   remoteTunReadWriterCommand readme_tunnel =
     ''sudo /tmp/tunreadwriter-20231012T225150-8296832003517942891 -delete -dev tun1 -net 172.19.0.2/24 -mtu 0'' \<and>
   squote \<notin> set (remoteTunReadWriterCommand readme_tunnel) \<and>
   remoteTunReadWriterCommand readme_tunnel \<noteq>
     ''sudo '' @ [squote] @ remoteTunReadWriter readme_tunnel @ [squote]
     @ '' -delete -dev '' @ [squote] @ RemoteTunDevice readme_tunnel @ [squote]
     @ '' -net '' @ [squote] @ RemoteNetwork readme_tunnel @ [squote]
     @ '' -mtu '' @ [squote] @ Itoa (RemoteMTU readme_tunnel) @ [squote]"
  by (simp add: readme_command) (simp add: readme_tunnel_def squote_def)

text \<open>
  Claim C8, amended. A \<^verbatim>\<open>StartTunneling\<close> that gets as far as starting the remote command
  starts \<^verbatim>\<open>sudo <helper> -delete -dev <dev> -net <cidr> -mtu <mtu>\<close>, where the helper path,
  the device name and the network are passed through \<^verbatim>\<open>shellescape.Quote\<close> and the MTU is
  its decimal number, which \<^verbatim>\<open>Quote\<close> never changes. \<^verbatim>\<open>Quote\<close> leaves a non-empty field of
  shell-safe characters as it is, turns the empty field into two single quotes, and puts
  every other field between single quotes, with each single quote inside it replaced by
  \<^verbatim>\<open>'"'"'\<close>.
\<close>

theorem remote_command_quoting:
  "remoteTunReadWriterCommand s =
     ''sudo '' @ Quote (remoteTunReadWriter s) @ '' -delete -dev '' @ Quote (RemoteTunDevice s)
     @ '' -net '' @ Quote (RemoteNetwork s) @ '' -mtu '' @ Itoa (RemoteMTU s) \<and>
   (remoteTunReadWriter s \<noteq> [] \<and> tn_NewSession a = None \<and> tn_StdinPipe a = None \<and>
    tn_StdoutPipe a = None \<and> tn_StderrPipe a = None \<longrightarrow>
      ran (snd (StartTunneling a s w)) = ran w @ [remoteTunReadWriterCommand s]) \<and>
   (f \<noteq> [] \<and> (\<forall>c \<in> set f. shell_safe c) \<longrightarrow> Quote f = f) \<and>
   (f = [] \<longrightarrow> Quote f = [squote, squote]) \<and>
   ((\<exists>c \<in> set f. \<not> shell_safe c) \<longrightarrow>
      Quote f = [squote]
        @ concat (map (\<lambda>c. if c = squote then [squote, dquote, squote, dquote, squote] else [c]) f)
        @ [squote]) \<and>
   ((\<exists>c \<in> set f. \<not> shell_safe c) \<and> squote \<notin> set f \<longrightarrow> Quote f = [squote] @ f @ [squote])"
proof -
  have "remoteTunReadWriterCommand s =
     ''sudo '' @ Quote (remoteTunReadWriter s) @ '' -delete -dev '' @ Quote (RemoteTunDevice s)
     @ '' -net '' @ Quote (RemoteNetwork s) @ '' -mtu '' @ Itoa (RemoteMTU s)"
    by (simp add: remoteTunReadWriterCommand_def Quote_Itoa)
  then show ?thesis
    using StartTunneling_started [of s a w] Quote_safe [of f] Quote_Nil Quote_unsafe [of f]
      Quote_unsafe_plain [of f]
    by blast
qed

theorem remote_command_quoting_witness:
  "remoteTunReadWriterCommand hostile_tunnel =
     ''sudo /tmp/tunreadwriter-20231012T225150-8296832003517942891 -delete -dev ''
     @ [squote] @ ''tun1; reboot'' @ [squote] @ '' -net 172.19.0.2/24 -mtu 0'' \<and>
   ran (snd (StartTunneling (op_Tunneling granted) hostile_tunnel user_world)) =
     [remoteTunReadWriterCommand hostile_tunnel] \<and>
   Quote ''tun1'' = ''tun1'' \<and>
   Quote ''tun1; reboot'' = [squote] @ ''tun1; reboot'' @ [squote]"
proof -
  note q = remote_command_quoting [of hostile_tunnel "op_Tunneling granted" user_world]
  have safe: "''tun1'' \<noteq> [] \<and> (\<forall>c \<in> set ''tun1''. shell_safe c)"
    by (simp add: shell_safe_def)
  have unsafe: "(\<exists>c \<in> set ''tun1; reboot''. \<not> shell_safe c) \<and> squote \<notin> set ''tun1; reboot''"
    by (simp add: shell_safe_def squote_def)
  have started: "remoteTunReadWriter hostile_tunnel \<noteq> [] \<and>
    tn_NewSession (op_Tunneling granted) = None \<and> tn_StdinPipe (op_Tunneling granted) = None \<and>
    tn_StdoutPipe (op_Tunneling granted) = None \<and> tn_StderrPipe (op_Tunneling granted) = None"
    by (simp add: hostile_tunnel_def readme_tunnel_def granted_def)
  from q [of "''tun1''", THEN conjunct2, THEN conjunct2, THEN conjunct1] safe
  have q1: "Quote ''tun1'' = ''tun1''" by blast
  from q [of "''tun1; reboot''", THEN conjunct2, THEN conjunct2, THEN conjunct2, THEN conjunct2,
      THEN conjunct2] unsafe
  have q2: "Quote ''tun1; reboot'' = [squote] @ ''tun1; reboot'' @ [squote]" by blast
  from q [of "[]", THEN conjunct2, THEN conjunct1] started
  have r: "ran (snd (StartTunneling (op_Tunneling granted) hostile_tunnel user_world)) =
     [remoteTunReadWriterCommand hostile_tunnel]"
    by (simp add: user_world_def)
  have safe_helper: "Quote ''/tmp/tunreadwriter-20231012T225150-8296832003517942891'' =
      ''/tmp/tunreadwriter-20231012T225150-8296832003517942891''"
    by (simp add: Quote_def shell_safe_def)
  have safe_net: "Quote ''172.19.0.2/24'' = ''172.19.0.2/24''"
    by (simp add: Quote_def shell_safe_def)
  have "Itoa 0 = ''0''"
    by (simp add: Itoa_def utoa.simps digit_char_def)
  with q [of "[]", THEN conjunct1] q2 safe_helper safe_net
  have "remoteTunReadWriterCommand hostile_tunnel =
     ''sudo /tmp/tunreadwriter-20231012T225150-8296832003517942891 -delete -dev ''
     @ [squote] @ ''tun1; reboot'' @ [squote] @ '' -net 172.19.0.2/24 -mtu 0''"
    by (simp add: hostile_tunnel_def readme_tunnel_def)
  with r q1 q2 show ?thesis by simp
qed

subsection \<open>The address of the interface\<close>

text \<open>
  The IPv4 parser of the library accepts exactly the dotted quads, and returns their octets.
\<close>

lemma split_loop_no_sep: "sep \<notin> set rest \<Longrightarrow> split_loop sep w rest = [w @ rest]"
  by (induction rest arbitrary: w) auto

lemma not_digit_dot: "\<not> is_digit CHR ''.''" "\<not> is_digit CHR ''/''" "\<not> is_digit CHR '':''"
  "\<not> is_digit CHR ''%''"
  by (simp_all add: is_digit_def)

lemma is_digit_zero:
  assumes "is_digit c" and "digit_val c = 0"
  shows "c = CHR ''0''"
proof -
  have "(of_char c :: nat) = of_char CHR ''0''"
    using assms by (simp add: is_digit_def digit_val_def)
  then show ?thesis by (simp only: of_char_eq_iff)
qed

lemma digit_val_zero: "digit_val CHR ''0'' = 0"
  by (simp add: digit_val_def)

lemma decimal_Nil: "decimal [] = 0"
  by (simp add: decimal_def)

lemma decimal_snoc: "decimal (t @ [c]) = decimal t * 10 + digit_val c"
  by (simp add: decimal_def)

lemma decimal_single: "decimal [c] = digit_val c"
  by (simp add: decimal_def)

lemma length_one_zero:
  "list_all is_digit cur \<Longrightarrow> length cur = 1 \<Longrightarrow> decimal cur = 0 \<Longrightarrow> cur = ''0''"
  by (cases cur) (auto simp: decimal_single dest: is_digit_zero)

lemma parseIPv4_loop_sound:
  "parseIPv4_loop flds (decimal cur) (length cur) prev rest = Some r \<Longrightarrow>
   list_all is_digit cur \<Longrightarrow> cur = ''0'' \<or> cur = [] \<or> hd cur \<noteq> CHR ''0'' \<Longrightarrow>
   decimal cur \<le> 255 \<Longrightarrow> (cur = [] \<longrightarrow> prev = None \<or> prev = Some CHR ''.'') \<Longrightarrow>
   (cur = [] \<and> rest = [] \<longrightarrow> length flds < 3) \<Longrightarrow> length flds \<le> 3 \<Longrightarrow>
   length flds + length (split_loop CHR ''.'' cur rest) = 4 \<and>
   list_all octet_text (split_loop CHR ''.'' cur rest) \<and>
   r = flds @ map decimal (split_loop CHR ''.'' cur rest)"
proof (induction rest arbitrary: flds cur prev)
  case Nil
  then show ?case
    by (auto simp: octet_text_def split: if_splits)
next
  case (Cons c cs)
  show ?case
  proof (cases "is_digit c")
    case True
    then have nd: "c \<noteq> CHR ''.''" using not_digit_dot by auto
    from Cons.prems(1) True
    have a: "\<not> (length cur = 1 \<and> decimal cur = 0)"
      and b: "decimal (cur @ [c]) \<le> 255"
      and c: "parseIPv4_loop flds (decimal (cur @ [c])) (length (cur @ [c])) (Some c) cs = Some r"
      by (auto simp: decimal_snoc Let_def split: if_splits)
    have lz: "cur @ [c] = ''0'' \<or> cur @ [c] = [] \<or> hd (cur @ [c]) \<noteq> CHR ''0''"
    proof (cases "cur = []")
      case True
      then show ?thesis by auto
    next
      case False
      have "cur \<noteq> ''0''" using a by (auto simp: decimal_single digit_val_zero)
      with Cons.prems(3) False have "hd cur \<noteq> CHR ''0''" by simp
      with False show ?thesis by simp
    qed
    from Cons.IH [OF c _ lz b] Cons.prems(2) True Cons.prems(7)
    have "length flds + length (split_loop CHR ''.'' (cur @ [c]) cs) = 4 \<and>
      list_all octet_text (split_loop CHR ''.'' (cur @ [c]) cs) \<and>
      r = flds @ map decimal (split_loop CHR ''.'' (cur @ [c]) cs)"
      by simp
    with nd show ?thesis by simp
  next
    case False
    with Cons.prems(1) have dot: "c = CHR ''.''"
      by (auto split: if_splits)
    from Cons.prems(1) False dot
    have p: "prev \<noteq> None" "cs \<noteq> []" "prev \<noteq> Some CHR ''.''" "length flds \<noteq> 3"
      and c: "parseIPv4_loop (flds @ [decimal cur]) (decimal []) (length ([]::string)) (Some c) cs = Some r"
      by (auto simp: decimal_Nil split: if_splits)
    from p Cons.prems(5) have ne: "cur \<noteq> []" by auto
    have oc: "octet_text cur"
      using ne Cons.prems(2,3,4) by (auto simp: octet_text_def)
    from Cons.IH [OF c] p Cons.prems(7) dot
    have "length (flds @ [decimal cur]) + length (split_loop CHR ''.'' [] cs) = 4 \<and>
      list_all octet_text (split_loop CHR ''.'' [] cs) \<and>
      r = (flds @ [decimal cur]) @ map decimal (split_loop CHR ''.'' [] cs)"
      by (simp add: decimal_Nil)
    with dot oc show ?thesis by simp
  qed
qed


lemma split_loop_not_Nil: "split_loop sep w s \<noteq> []"
  by (induction s arbitrary: w) auto

lemma split_loop_hd: "\<exists>t ws. split_loop sep w s = (w @ t) # ws"
proof (induction s arbitrary: w)
  case Nil
  show ?case by simp
next
  case (Cons c cs)
  show ?case
  proof (cases "c = sep")
    case True
    then show ?thesis by simp
  next
    case False
    from Cons [of "w @ [c]"] obtain t ws where "split_loop sep (w @ [c]) cs = ((w @ [c]) @ t) # ws"
      by blast
    with False have "split_loop sep w (c # cs) = (w @ (c # t)) # ws" by simp
    then show ?thesis by blast
  qed
qed

lemma decimal_foldl_ge: "n \<le> foldl (\<lambda>n c. n * 10 + digit_val c) n v"
proof (induction v arbitrary: n)
  case Nil
  show ?case by simp
next
  case (Cons c v)
  have "n \<le> n * 10 + digit_val c" by simp
  also have "\<dots> \<le> foldl (\<lambda>n c. n * 10 + digit_val c) (n * 10 + digit_val c) v" by (rule Cons)
  finally show ?case by simp
qed

lemma decimal_prefix: "decimal u \<le> decimal (u @ v)"
  using decimal_foldl_ge [of "decimal u" v] by (simp add: decimal_def)

lemma parseIPv4_loop_complete:
  "length flds + length (split_loop CHR ''.'' cur rest) = 4 \<Longrightarrow>
   list_all octet_text (split_loop CHR ''.'' cur rest) \<Longrightarrow>
   list_all is_digit cur \<Longrightarrow> (cur \<noteq> [] \<longrightarrow> prev = Some (last cur)) \<Longrightarrow>
   parseIPv4_loop flds (decimal cur) (length cur) prev rest =
     Some (flds @ map decimal (split_loop CHR ''.'' cur rest))"
proof (induction rest arbitrary: flds cur prev)
  case Nil
  then show ?case by simp
next
  case (Cons c cs)
  show ?case
  proof (cases "c = CHR ''.''")
    case True
    with Cons.prems(2) have oc: "octet_text cur"
      and rest: "list_all octet_text (split_loop CHR ''.'' [] cs)"
      by simp_all
    from oc have ne: "cur \<noteq> []" by (simp add: octet_text_def)
    with Cons.prems(3) have "is_digit (last cur)" by (simp add: list_all_iff)
    with ne Cons.prems(4) have p: "prev \<noteq> None" "prev \<noteq> Some CHR ''.''"
      using not_digit_dot by auto
    have cs: "cs \<noteq> []"
    proof
      assume "cs = []"
      with rest show False by (simp add: octet_text_def)
    qed
    from Cons.prems(1) True
    have len: "length (flds @ [decimal cur]) + length (split_loop CHR ''.'' [] cs) = 4"
      by simp
    have "0 < length (split_loop CHR ''.'' [] cs)"
      using split_loop_not_Nil [of "CHR ''.''" "[]" cs] by simp
    with len have l3: "length flds \<noteq> 3" by (simp del: length_greater_0_conv)
    from Cons.IH [OF len rest, of "Some c"]
    have "parseIPv4_loop (flds @ [decimal cur]) 0 0 (Some c) cs =
       Some ((flds @ [decimal cur]) @ map decimal (split_loop CHR ''.'' [] cs))"
      by (simp add: decimal_Nil)
    with True p cs l3 show ?thesis by (simp add: not_digit_dot)
  next
    case False
    then have sp: "split_loop CHR ''.'' cur (c # cs) = split_loop CHR ''.'' (cur @ [c]) cs"
      by simp
    obtain t ws where hd: "split_loop CHR ''.'' (cur @ [c]) cs = ((cur @ [c]) @ t) # ws"
      using split_loop_hd by blast
    with Cons.prems(2) sp have oc: "octet_text (cur @ [c] @ t)" by simp
    then have dg: "is_digit c" by (simp add: octet_text_def)
    have a: "\<not> (length cur = 1 \<and> decimal cur = 0)"
    proof
      assume "length cur = 1 \<and> decimal cur = 0"
      with Cons.prems(3) have "cur = ''0''" by (simp add: length_one_zero)
      with oc show False by (simp add: octet_text_def)
    qed
    have "decimal (cur @ [c]) \<le> decimal ((cur @ [c]) @ t)" by (rule decimal_prefix)
    also have "\<dots> \<le> 255" using oc by (simp add: octet_text_def)
    finally have b: "decimal cur * 10 + digit_val c \<le> 255" by (simp add: decimal_snoc)
    from Cons.IH [of flds "cur @ [c]" "Some c"] Cons.prems sp dg
    have "parseIPv4_loop flds (decimal (cur @ [c])) (length (cur @ [c])) (Some c) cs =
       Some (flds @ map decimal (split_loop CHR ''.'' (cur @ [c]) cs))"
      by simp
    with dg a b sp show ?thesis by (simp add: decimal_snoc Let_def)
  qed
qed

lemma dotted_quad_iff:
  "dotted_quad t \<longleftrightarrow>
   length (split_on CHR ''.'' t) = 4 \<and> list_all octet_text (split_on CHR ''.'' t)"
  by (auto simp: dotted_quad_def split: list.splits)

lemma parseIPv4_iff:
  "parseIPv4 t = Some b \<longleftrightarrow> dotted_quad t \<and> b = map decimal (split_on CHR ''.'' t)"
proof
  assume "parseIPv4 t = Some b"
  then have "parseIPv4_loop [] (decimal []) (length ([]::string)) None t = Some b"
    by (simp add: parseIPv4_def decimal_Nil)
  from parseIPv4_loop_sound [OF this]
  show "dotted_quad t \<and> b = map decimal (split_on CHR ''.'' t)"
    by (simp add: dotted_quad_iff split_on_def decimal_Nil)
next
  assume "dotted_quad t \<and> b = map decimal (split_on CHR ''.'' t)"
  then have d: "length (split_loop CHR ''.'' [] t) = 4"
    "list_all octet_text (split_loop CHR ''.'' [] t)"
    and b: "b = map decimal (split_loop CHR ''.'' [] t)"
    by (simp_all add: dotted_quad_iff split_on_def)
  from parseIPv4_loop_complete [of "[]" "[]" t None] d
  show "parseIPv4 t = Some b"
    by (simp add: parseIPv4_def decimal_Nil b)
qed

text \<open>
  \<^verbatim>\<open>net.ParseCIDR\<close> on a string without a colon never calls the IPv6 parser, and accepts
  exactly the strings that denote an IPv4 address with a prefix length.
\<close>

lemma ParseAddr_scan_no_colon:
  "CHR '':'' \<notin> set rest \<Longrightarrow>
   ParseAddr_scan p s rest = None \<or> ParseAddr_scan p s rest = map_option Addr4 (parseIPv4 s)"
  by (induction rest) auto

lemma ParseAddr_scan_digits:
  "list_all is_digit u \<Longrightarrow>
   ParseAddr_scan p s (u @ CHR ''.'' # v) = map_option Addr4 (parseIPv4 s)"
  by (induction u) (auto simp: not_digit_dot)

lemma split_loop_first:
  "sep \<in> set s \<Longrightarrow>
   split_loop sep w s =
     (w @ takeWhile (\<lambda>c. c \<noteq> sep) s) # split_loop sep [] (tl (dropWhile (\<lambda>c. c \<noteq> sep) s))"
  by (induction s arbitrary: w) auto

lemma split_on_single: "split_on sep s = [t] \<longleftrightarrow> sep \<notin> set s \<and> t = s"
proof (cases "sep \<in> set s")
  case True
  from split_loop_first [OF this, of "[]"] split_loop_not_Nil [of sep "[]" "tl (dropWhile (\<lambda>c. c \<noteq> sep) s)"]
  show ?thesis using True by (auto simp: split_on_def)
next
  case False
  then show ?thesis by (auto simp: split_on_def split_loop_no_sep)
qed

lemma split_on_pair:
  "split_on sep s = [t, u] \<longleftrightarrow>
   sep \<in> set s \<and> t = takeWhile (\<lambda>c. c \<noteq> sep) s \<and> u = tl (dropWhile (\<lambda>c. c \<noteq> sep) s) \<and>
   sep \<notin> set u"
proof (cases "sep \<in> set s")
  case True
  from split_loop_first [OF this, of "[]"]
  have "split_on sep s =
     takeWhile (\<lambda>c. c \<noteq> sep) s # split_on sep (tl (dropWhile (\<lambda>c. c \<noteq> sep) s))"
    by (simp add: split_on_def)
  with True show ?thesis using split_on_single [of sep "tl (dropWhile (\<lambda>c. c \<noteq> sep) s)" u]
    by auto
next
  case False
  then show ?thesis by (simp add: split_on_def split_loop_no_sep)
qed

lemma IPv4_CIDR_text_iff:
  "IPv4_CIDR_text x \<longleftrightarrow>
   CHR ''/'' \<in> set x \<and> dotted_quad (takeWhile (\<lambda>c. c \<noteq> CHR ''/'') x) \<and>
   prefix_text 32 (tl (dropWhile (\<lambda>c. c \<noteq> CHR ''/'') x))"
proof -
  let ?addr = "takeWhile (\<lambda>c. c \<noteq> CHR ''/'') x"
  let ?n = "tl (dropWhile (\<lambda>c. c \<noteq> CHR ''/'') x)"
  have digits: "CHR ''/'' \<notin> set ?n" if "prefix_text 32 ?n"
    using that not_digit_dot by (auto simp: prefix_text_def list_all_iff)
  have "IPv4_CIDR_text x \<longleftrightarrow>
    (\<exists>addr n. split_on CHR ''/'' x = [addr, n] \<and> dotted_quad addr \<and> prefix_text 32 n)"
    by (auto simp: IPv4_CIDR_text_def split: list.splits)
  also have "\<dots> \<longleftrightarrow> CHR ''/'' \<in> set x \<and> dotted_quad ?addr \<and> prefix_text 32 ?n"
    using digits by (auto simp: split_on_pair)
  finally show ?thesis .
qed

lemma dtoi_loop_sound:
  "dtoi_loop n i cs = (n', i', True) \<Longrightarrow> i' = i + length cs \<Longrightarrow>
   list_all is_digit cs \<and> n' = foldl (\<lambda>n c. n * 10 + digit_val c) n cs \<and> 0 < i + length cs"
proof (induction cs arbitrary: n i)
  case Nil
  then show ?case by (auto split: if_splits)
next
  case (Cons c cs)
  show ?case
  proof (cases "is_digit c")
    case True
    with Cons.prems
    have "dtoi_loop (n * 10 + digit_val c) (i + 1) cs = (n', i', True)"
      by (auto simp: Let_def split: if_splits)
    from Cons.IH [OF this] Cons.prems(2) True show ?thesis by simp
  next
    case False
    with Cons.prems show ?thesis by (auto split: if_splits)
  qed
qed

lemma dtoi_loop_complete:
  "list_all is_digit cs \<Longrightarrow> foldl (\<lambda>n c. n * 10 + digit_val c) n cs < big \<Longrightarrow>
   0 < i + length cs \<Longrightarrow>
   dtoi_loop n i cs = (foldl (\<lambda>n c. n * 10 + digit_val c) n cs, i + length cs, True)"
proof (induction cs arbitrary: n i)
  case Nil
  then show ?case by simp
next
  case (Cons c cs)
  have "n * 10 + digit_val c \<le> foldl (\<lambda>n c. n * 10 + digit_val c) (n * 10 + digit_val c) cs"
    by (rule decimal_foldl_ge)
  with Cons.prems(2) have lt: "n * 10 + digit_val c < big" by simp
  from Cons.IH [of "n * 10 + digit_val c" "i + 1"] Cons.prems
  have "dtoi_loop (n * 10 + digit_val c) (i + 1) cs =
     (foldl (\<lambda>n c. n * 10 + digit_val c) (n * 10 + digit_val c) cs, i + 1 + length cs, True)"
    by simp
  with Cons.prems(1) lt show ?case by (simp add: Let_def)
qed

lemma dtoi_iff:
  "(dtoi t = (n, i, ok) \<and> ok \<and> i = length t \<and> n \<le> bits) \<longleftrightarrow>
   (prefix_text bits t \<and> n = decimal t \<and> i = length t \<and> ok)" if "bits < big"
proof
  assume a: "dtoi t = (n, i, ok) \<and> ok \<and> i = length t \<and> n \<le> bits"
  then have "dtoi_loop 0 0 t = (n, i, True)" and "i = 0 + length t"
    by (simp_all add: dtoi_def)
  from dtoi_loop_sound [OF this] a
  show "prefix_text bits t \<and> n = decimal t \<and> i = length t \<and> ok"
    by (simp add: prefix_text_def decimal_def)
next
  assume a: "prefix_text bits t \<and> n = decimal t \<and> i = length t \<and> ok"
  with that have "foldl (\<lambda>n c. n * 10 + digit_val c) 0 t < big"
    by (simp add: prefix_text_def decimal_def)
  from dtoi_loop_complete [OF _ this, of 0] a
  show "dtoi t = (n, i, ok) \<and> ok \<and> i = length t \<and> n \<le> bits"
    by (simp add: dtoi_def prefix_text_def decimal_def)
qed

lemma ParseAddr_no_colon:
  "CHR '':'' \<notin> set s \<Longrightarrow> ParseAddr p s = Some ip \<Longrightarrow> \<exists>b. ip = Addr4 b \<and> parseIPv4 s = Some b"
  using ParseAddr_scan_no_colon [of s p s] by (cases "parseIPv4 s") (auto simp: ParseAddr_def)

lemma ParseAddr_dotted_quad:
  assumes "dotted_quad s"
  shows "ParseAddr p s = Some (Addr4 (map decimal (split_on CHR ''.'' s)))"
proof -
  from assms have len: "length (split_on CHR ''.'' s) = 4"
    and oc: "list_all octet_text (split_on CHR ''.'' s)"
    by (simp_all add: dotted_quad_iff)
  have dot: "CHR ''.'' \<in> set s"
  proof (rule ccontr)
    assume "CHR ''.'' \<notin> set s"
    then have "split_on CHR ''.'' s = [s]" by (simp add: split_on_def split_loop_no_sep)
    with len show False by simp
  qed
  let ?u = "takeWhile (\<lambda>c. c \<noteq> CHR ''.'') s"
  let ?v = "tl (dropWhile (\<lambda>c. c \<noteq> CHR ''.'') s)"
  from split_loop_first [OF dot, of "[]"] oc have "octet_text ?u"
    by (simp add: split_on_def)
  then have dg: "list_all is_digit ?u" by (simp add: octet_text_def)
  from dot have "dropWhile (\<lambda>c. c \<noteq> CHR ''.'') s \<noteq> []" by simp
  moreover have "hd (dropWhile (\<lambda>c. c \<noteq> CHR ''.'') s) = CHR ''.''"
    using dot hd_dropWhile [of "\<lambda>c. c \<noteq> CHR ''.''" s] by auto
  ultimately have "dropWhile (\<lambda>c. c \<noteq> CHR ''.'') s = CHR ''.'' # ?v"
    by (cases "dropWhile (\<lambda>c. c \<noteq> CHR ''.'') s") auto
  then have s: "s = ?u @ CHR ''.'' # ?v"
    using takeWhile_dropWhile_id [of "\<lambda>c. c \<noteq> CHR ''.''" s] by simp
  have "ParseAddr_scan p s (?u @ CHR ''.'' # ?v) = map_option Addr4 (parseIPv4 s)"
    using dg by (rule ParseAddr_scan_digits)
  with s have "ParseAddr p s = map_option Addr4 (parseIPv4 s)"
    by (simp add: ParseAddr_def)
  moreover from assms have "parseIPv4 s = Some (map decimal (split_on CHR ''.'' s))"
    by (simp add: parseIPv4_iff)
  ultimately show ?thesis by simp
qed

lemma big_32: "32 < big"
  by (simp add: big_def)

lemma ParseCIDR_IPv4_CIDR_text:
  assumes "IPv4_CIDR_text x"
  shows "ParseCIDR p x =
     Inr ([0, 0, 0, 0, 0, 0, 0, 0, 0, 0, 255, 255] @
            map decimal (split_on CHR ''.'' (takeWhile (\<lambda>c. c \<noteq> CHR ''/'') x)),
          CIDRMask (decimal (tl (dropWhile (\<lambda>c. c \<noteq> CHR ''/'') x))) 32)"
proof -
  let ?addr = "takeWhile (\<lambda>c. c \<noteq> CHR ''/'') x"
  let ?n = "tl (dropWhile (\<lambda>c. c \<noteq> CHR ''/'') x)"
  from assms have sl: "CHR ''/'' \<in> set x" and dq: "dotted_quad ?addr" and pt: "prefix_text 32 ?n"
    by (simp_all add: IPv4_CIDR_text_iff)
  have pa: "ParseAddr p ?addr = Some (Addr4 (map decimal (split_on CHR ''.'' ?addr)))"
    using dq by (rule ParseAddr_dotted_quad)
  obtain n i ok where d: "dtoi ?n = (n, i, ok)" by (cases "dtoi ?n") auto
  from dtoi_iff [OF big_32, of ?n "decimal ?n" "length ?n" True] pt
  have "dtoi ?n = (decimal ?n, length ?n, True)" and "decimal ?n \<le> 32" by simp_all
  with sl pa show ?thesis
    by (simp add: ParseCIDR_def Let_def Zone_def BitLen_def As16_def)
qed

lemma ParseCIDR_no_colon:
  assumes "CHR '':'' \<notin> set x" and "ParseCIDR p x = Inr r"
  shows "IPv4_CIDR_text x"
proof -
  let ?addr = "takeWhile (\<lambda>c. c \<noteq> CHR ''/'') x"
  let ?n = "tl (dropWhile (\<lambda>c. c \<noteq> CHR ''/'') x)"
  from assms(2) have sl: "CHR ''/'' \<in> set x"
    by (auto simp: ParseCIDR_def split: if_splits)
  from assms(2) sl obtain ipAddr where pa: "ParseAddr p ?addr = Some ipAddr"
    by (auto simp: ParseCIDR_def Let_def split: option.splits)
  have "CHR '':'' \<notin> set ?addr" using assms(1) by (auto dest: set_takeWhileD)
  from ParseAddr_no_colon [OF this pa] obtain b where b: "ipAddr = Addr4 b"
    and p4: "parseIPv4 ?addr = Some b" by blast
  from p4 have dq: "dotted_quad ?addr" by (simp add: parseIPv4_iff)
  obtain n i ok where d: "dtoi ?n = (n, i, ok)" by (cases "dtoi ?n") auto
  from assms(2) sl pa b d have "ok \<and> i = length ?n \<and> n \<le> 32"
    by (auto simp: ParseCIDR_def Let_def BitLen_def split: if_splits)
  with d dtoi_iff [OF big_32, of ?n n i ok] have "prefix_text 32 ?n" by simp
  with sl dq show ?thesis by (simp add: IPv4_CIDR_text_iff)
qed


lemma To4_mapped:
  "length b = 4 \<Longrightarrow> To4 ([0, 0, 0, 0, 0, 0, 0, 0, 0, 0, 255, 255] @ b) = Some b"
  by (simp add: To4_def)

lemma CIDRMask_32: "take 4 (CIDRMask n 32) = CIDRMask n 32"
  by (simp add: CIDRMask_def CIDRMask_loop_4)

lemma ParseCIDR_error:
  "ParseCIDR p x = Inl err \<Longrightarrow> err = ParseError ''CIDR address'' x"
  by (auto simp: ParseCIDR_def Let_def split: if_splits option.splits prod.splits)

lemma ParseError_not_sentinel: "\<not> errors_Is (ParseError Type Text) ErrInvalidAddress"
  by (simp add: ParseError_def)

lemma ConfigureInterface_sentinel:
  "ConfigureInterface a x = Inl err \<Longrightarrow> errors_Is err ErrInvalidAddress \<Longrightarrow>
   err = ErrInvalidAddress \<and> (\<exists>ip m. ParseCIDR (ci_parseIPv6 a) x = Inr (ip, m) \<and> To4 ip = None)"
  by (auto simp: ConfigureInterface_def ParseError_def split: sum.splits option.splits prod.splits
      dest!: ParseCIDR_error)

lemma ConfigureInterface_not_IPv4:
  "ParseCIDR (ci_parseIPv6 a) x = Inr (ip, m) \<Longrightarrow> To4 ip = None \<Longrightarrow>
   ConfigureInterface a x = Inl ErrInvalidAddress"
  by (simp add: ConfigureInterface_def)

lemma ConfigureInterface_no_colon:
  assumes "CHR '':'' \<notin> set x" and "\<not> IPv4_CIDR_text x"
  shows "ConfigureInterface a x = Inl (ParseError ''CIDR address'' x)"
proof (cases "ParseCIDR (ci_parseIPv6 a) x")
  case (Inl err)
  then show ?thesis using ParseCIDR_error [OF Inl] by (simp add: ConfigureInterface_def)
next
  case (Inr r)
  with assms show ?thesis using ParseCIDR_no_colon by blast
qed

lemma ConfigureInterface_IPv4_CIDR_text:
  assumes "IPv4_CIDR_text x"
  shows "ConfigureInterface a x =
     (case ci_Socket a of
        Some errno \<Rightarrow> Inl (Foreign errno)
      | None \<Rightarrow>
          (case ci_ioctl_SIOCSIFADDR a of
             Some errno \<Rightarrow> Inl (Errorf ''ioctl SIOCSIFADDR: %w'' [Foreign errno])
           | None \<Rightarrow>
               (case ci_ioctl_SIOCSIFNETMASK a of
                  Some errno \<Rightarrow> Inl (Errorf ''ioctl SIOCSIFNETMASK: %w'' [Foreign errno])
                | None \<Rightarrow>
                    Inr (map decimal (split_on CHR ''.'' (takeWhile (\<lambda>c. c \<noteq> CHR ''/'') x)),
                         CIDRMask (decimal (tl (dropWhile (\<lambda>c. c \<noteq> CHR ''/'') x))) 32))))"
proof -
  from assms have "length (split_on CHR ''.'' (takeWhile (\<lambda>c. c \<noteq> CHR ''/'') x)) = 4"
    by (simp add: IPv4_CIDR_text_iff dotted_quad_iff)
  then have "To4 ([0, 0, 0, 0, 0, 0, 0, 0, 0, 0, 255, 255] @
      map decimal (split_on CHR ''.'' (takeWhile (\<lambda>c. c \<noteq> CHR ''/'') x))) =
    Some (map decimal (split_on CHR ''.'' (takeWhile (\<lambda>c. c \<noteq> CHR ''/'') x)))"
    by (simp only: To4_mapped length_map)
  then show ?thesis
    by (simp add: ConfigureInterface_def ParseCIDR_IPv4_CIDR_text [OF assms] CIDRMask_32
        del: append.simps split: option.split)
qed

lemma ConfigureInterface_sentinel_colon:
  assumes "ConfigureInterface a x = Inl err" and "errors_Is err ErrInvalidAddress"
  shows "CHR '':'' \<in> set x"
proof (rule ccontr)
  assume nc: "CHR '':'' \<notin> set x"
  show False
  proof (cases "IPv4_CIDR_text x")
    case True
    from assms show False
      unfolding ConfigureInterface_IPv4_CIDR_text [OF True]
      by (auto split: option.splits)
  next
    case False
    from ConfigureInterface_no_colon [OF nc False, of a] assms(1)
    have "err = ParseError ''CIDR address'' x" by simp
    with assms(2) show False by (simp add: ParseError_not_sentinel)
  qed
qed


lemmas text_defs = IPv4_CIDR_text_def dotted_quad_def split_on_def octet_text_def prefix_text_def
  decimal_def is_digit_def digit_val_def

lemma invalid_cidr_ParseCIDR:
  "ParseCIDR p ''192.168.99.256/29'' = Inl (ParseError ''CIDR address'' ''192.168.99.256/29'')"
  by (simp add: ParseCIDR_def ParseAddr_def parseIPv4_def is_digit_def digit_val_def Let_def)

text \<open>
  Claim C6, as stated, at the invalid CIDR of the test: \<^verbatim>\<open>ConfigureInterface\<close> fails, but
  with the error of the parser, which is not \<^verbatim>\<open>ErrInvalidAddress\<close> and does not have it in
  its chain.
\<close>

theorem ConfigureInterface_invalid_cidr_not_sentinel:
  "ConfigureInterface (op_ConfigureInterface granted) ''192.168.99.256/29'' =
     Inl (ParseError ''CIDR address'' ''192.168.99.256/29'') \<and>
   ParseError ''CIDR address'' ''192.168.99.256/29'' =
     Foreign ''invalid CIDR address: 192.168.99.256/29'' \<and>
   ParseError ''CIDR address'' ''192.168.99.256/29'' \<noteq> ErrInvalidAddress \<and>
   \<not> errors_Is (ParseError ''CIDR address'' ''192.168.99.256/29'') ErrInvalidAddress"
  by (simp add: ConfigureInterface_def invalid_cidr_ParseCIDR) (simp add: ParseError_def)

text \<open>
  Claim C6, amended. For every input string without a colon that does not denote an IPv4
  address with a prefix length (a dotted quad of octets from 0 to 255 without leading zeros,
  a slash, and decimal digits of value at most 32), such as \<^verbatim>\<open>192.168.99.256/29\<close>,
  \<^verbatim>\<open>ConfigureInterface\<close> fails before any system call, with the error of \<^verbatim>\<open>net.ParseCIDR\<close>,
  which names the string and does not have \<^verbatim>\<open>ErrInvalidAddress\<close> in its chain. For every
  string that denotes one, \<^verbatim>\<open>ConfigureInterface\<close> hands the four octets and the netmask to
  the kernel, and succeeds when the three system calls do. It returns an error with
  \<^verbatim>\<open>ErrInvalidAddress\<close> in its chain exactly when \<^verbatim>\<open>net.ParseCIDR\<close> accepts the string with
  an address that has no four-byte form; the error is then \<^verbatim>\<open>ErrInvalidAddress\<close> itself,
  and the string has a colon: it is an IPv6 address, and not an IPv4-mapped one.
\<close>

theorem ConfigureInterface_rejects:
  "(CHR '':'' \<notin> set x \<and> \<not> IPv4_CIDR_text x \<longrightarrow>
      ConfigureInterface a x = Inl (ParseError ''CIDR address'' x) \<and>
      \<not> errors_Is (ParseError ''CIDR address'' x) ErrInvalidAddress) \<and>
   (IPv4_CIDR_text x \<and> ci_Socket a = None \<and> ci_ioctl_SIOCSIFADDR a = None \<and>
    ci_ioctl_SIOCSIFNETMASK a = None \<longrightarrow>
      ConfigureInterface a x =
        Inr (map decimal (split_on CHR ''.'' (takeWhile (\<lambda>c. c \<noteq> CHR ''/'') x)),
             CIDRMask (decimal (tl (dropWhile (\<lambda>c. c \<noteq> CHR ''/'') x))) 32)) \<and>
   (ConfigureInterface a x = Inl err \<and> errors_Is err ErrInvalidAddress \<longleftrightarrow>
      err = ErrInvalidAddress \<and>
      (\<exists>ip m. ParseCIDR (ci_parseIPv6 a) x = Inr (ip, m) \<and> To4 ip = None)) \<and>
   (ConfigureInterface a x = Inl err \<and> errors_Is err ErrInvalidAddress \<longrightarrow>
      CHR '':'' \<in> set x)"
proof -
  have "ConfigureInterface a x = Inl (ParseError ''CIDR address'' x) \<and>
      \<not> errors_Is (ParseError ''CIDR address'' x) ErrInvalidAddress"
    if "CHR '':'' \<notin> set x \<and> \<not> IPv4_CIDR_text x"
    using that ConfigureInterface_no_colon [of x a] ParseError_not_sentinel by simp
  moreover have "ConfigureInterface a x =
        Inr (map decimal (split_on CHR ''.'' (takeWhile (\<lambda>c. c \<noteq> CHR ''/'') x)),
             CIDRMask (decimal (tl (dropWhile (\<lambda>c. c \<noteq> CHR ''/'') x))) 32)"
    if "IPv4_CIDR_text x \<and> ci_Socket a = None \<and> ci_ioctl_SIOCSIFADDR a = None \<and>
      ci_ioctl_SIOCSIFNETMASK a = None"
    using that ConfigureInterface_IPv4_CIDR_text [of x a] by simp
  moreover have "(ConfigureInterface a x = Inl err \<and> errors_Is err ErrInvalidAddress) =
      (err = ErrInvalidAddress \<and>
       (\<exists>ip m. ParseCIDR (ci_parseIPv6 a) x = Inr (ip, m) \<and> To4 ip = None))"
    using ConfigureInterface_sentinel [of a x err] ConfigureInterface_not_IPv4 [of a x]
    by auto
  moreover have "CHR '':'' \<in> set x"
    if "ConfigureInterface a x = Inl err \<and> errors_Is err ErrInvalidAddress"
    using that ConfigureInterface_sentinel_colon [of a x err] by simp
  ultimately show ?thesis by blast
qed

theorem ConfigureInterface_rejects_witness:
  "ConfigureInterface loopback6_answers ''192.168.99.256/29'' =
     Inl (ParseError ''CIDR address'' ''192.168.99.256/29'') \<and>
   ConfigureInterface loopback6_answers ''172.19.0.1/24'' =
     Inr ([172, 19, 0, 1], [255, 255, 255, 0]) \<and>
   ConfigureInterface loopback6_answers ''::1/64'' = Inl ErrInvalidAddress \<and>
   CHR '':'' \<in> set ''::1/64''"
proof -
  have p1: "CHR '':'' \<notin> set ''192.168.99.256/29'' \<and> \<not> IPv4_CIDR_text ''192.168.99.256/29''"
    by (simp add: text_defs)
  have p2: "IPv4_CIDR_text ''172.19.0.1/24'' \<and> ci_Socket loopback6_answers = None \<and>
      ci_ioctl_SIOCSIFADDR loopback6_answers = None \<and>
      ci_ioctl_SIOCSIFNETMASK loopback6_answers = None"
    by (simp add: text_defs loopback6_answers_def granted_def)
  have p3: "ParseCIDR (ci_parseIPv6 loopback6_answers) ''::1/64'' =
      Inr ([0, 0, 0, 0, 0, 0, 0, 0, 0, 0, 0, 0, 0, 0, 0, 1], CIDRMask 64 128) \<and>
    To4 [0, 0, 0, 0, 0, 0, 0, 0, 0, 0, 0, 0, 0, 0, 0, 1] = None"
    by (simp add: loopback6_answers_def parse_loopback6_def ParseCIDR_def ParseAddr_def Let_def
        dtoi_def big_def is_digit_def digit_val_def BitLen_def Zone_def As16_def To4_def)
  from ConfigureInterface_rejects [of "''192.168.99.256/29''" loopback6_answers, THEN conjunct1] p1
  have "ConfigureInterface loopback6_answers ''192.168.99.256/29'' =
     Inl (ParseError ''CIDR address'' ''192.168.99.256/29'')" by blast
  moreover
  from ConfigureInterface_rejects [of "''172.19.0.1/24''" loopback6_answers, THEN conjunct2,
      THEN conjunct1] p2
  have "ConfigureInterface loopback6_answers ''172.19.0.1/24'' =
     Inr ([172, 19, 0, 1], [255, 255, 255, 0])"
    by (simp add: text_defs CIDRMask_def CIDRMask_loop_4 mask_byte_def)
  moreover
  from ConfigureInterface_rejects [of "''::1/64''" loopback6_answers ErrInvalidAddress,
      THEN conjunct2, THEN conjunct2, THEN conjunct1] p3
  have s: "ConfigureInterface loopback6_answers ''::1/64'' = Inl ErrInvalidAddress" by blast
  moreover
  from ConfigureInterface_rejects [of "''::1/64''" loopback6_answers ErrInvalidAddress,
      THEN conjunct2, THEN conjunct2, THEN conjunct2] s
  have "CHR '':'' \<in> set ''::1/64''" by simp
  ultimately show ?thesis by simp
qed

text \<open>
  An IPv4-mapped IPv6 address with a prefix length is not rejected: with an IPv6 parser that
  accepts \<^verbatim>\<open>::ffff:1.2.3.4\<close>, the interface gets the address \<^verbatim>\<open>1.2.3.4\<close> and the first four
  bytes of the 128-bit mask.
\<close>

lemma CIDRMask_loop_numeral:
  "CIDRMask_loop (numeral k) n = mask_byte n # CIDRMask_loop (pred_numeral k) (n - 8)"
  by (simp add: numeral_eq_Suc)

lemma ConfigureInterface_mapped6:
  "ConfigureInterface mapped6_answers ''::ffff:1.2.3.4/120'' =
     Inr ([1, 2, 3, 4], [255, 255, 255, 255])"
  by (simp add: mapped6_answers_def parse_mapped6_def granted_def ConfigureInterface_def
      ParseCIDR_def ParseAddr_def Let_def dtoi_def big_def is_digit_def digit_val_def BitLen_def
      Zone_def As16_def To4_def CIDRMask_def CIDRMask_loop_numeral mask_byte_def)

end
